theory Spec2Isabelle
  imports Main "HOL-Library.Word"
begin

section \<open>The host layer of binjgb (src/host.c): audio pacing and playback control\<close>

text \<open>
  The C integer types of the source. \<open>u32\<close> arithmetic wraps modulo \<open>2 ^ 32\<close>.
  The \<open>size_t\<close> quantities (frame counts, pointer offsets) are natural numbers:
  \<open>src_frames\<close> is the length of a buffer in memory, and \<open>frames\<close> and the
  offsets derived from it are bounded by the device buffer size, a \<open>u32\<close>, so none
  of them can wrap in 64 bits.
\<close>

type_synonym u8 = "8 word"
type_synonym u16 = "16 word"
type_synonym u32 = "32 word"

text \<open>\<^verbatim>\<open>typedef u16 HostAudioSample;\<close>\<close>

type_synonym HostAudioSample = u16

subsection \<open>The audio output device (SDL)\<close>

text \<open>
  The SDL audio device is external. Its state, as far as host.c can drive or observe it:
  the number of bytes waiting in its queue, whether it is paused, and the samples appended
  since the queue was last cleared. The device consumes queued bytes on its own schedule
  (\<open>device_consume\<close>); host.c only appends, clears, pauses and asks for the queued size.
\<close>

record audio_device =
  dev_queued :: nat
  dev_paused :: bool
  dev_stream :: "HostAudioSample list"

text \<open>\<^verbatim>\<open>Uint32 SDL_GetQueuedAudioSize(dev)\<close>: the queued byte count, as a 32-bit value.\<close>

definition SDL_GetQueuedAudioSize :: "audio_device \<Rightarrow> u32" where
  "SDL_GetQueuedAudioSize d = of_nat (dev_queued d)"

text \<open>\<^verbatim>\<open>SDL_QueueAudio(dev, data, len)\<close>: appends the first \<open>len\<close> bytes of \<open>data\<close>
  (\<open>len div 2\<close> 16-bit samples).\<close>

definition SDL_QueueAudio :: "audio_device \<Rightarrow> HostAudioSample list \<Rightarrow> u32 \<Rightarrow> audio_device" where
  "SDL_QueueAudio d samples len =
     d\<lparr>dev_queued := dev_queued d + unat len,
       dev_stream := dev_stream d @ take (unat len div 2) samples\<rparr>"

definition SDL_ClearQueuedAudio :: "audio_device \<Rightarrow> audio_device" where
  "SDL_ClearQueuedAudio d = d\<lparr>dev_queued := 0, dev_stream := []\<rparr>"

text \<open>\<^verbatim>\<open>SDL_PauseAudioDevice(dev, pause_on)\<close>\<close>

definition SDL_PauseAudioDevice :: "audio_device \<Rightarrow> bool \<Rightarrow> audio_device" where
  "SDL_PauseAudioDevice d pause_on = d\<lparr>dev_paused := pause_on\<rparr>"

text \<open>The device playing \<open>n\<close> bytes of its queue (it cannot play more than it holds).\<close>

definition device_consume :: "nat \<Rightarrow> audio_device \<Rightarrow> audio_device" where
  "device_consume n d = d\<lparr>dev_queued := dev_queued d - n\<rparr>"

subsection \<open>The window (SDL)\<close>

record sdl_window =
  win_swap_interval :: nat
  win_fullscreen :: bool

definition SDL_GL_SetSwapInterval :: "sdl_window \<Rightarrow> nat \<Rightarrow> sdl_window" where
  "SDL_GL_SetSwapInterval w i = w\<lparr>win_swap_interval := i\<rparr>"

definition SDL_SetWindowFullscreen :: "sdl_window \<Rightarrow> bool \<Rightarrow> sdl_window" where
  "SDL_SetWindowFullscreen w f = w\<lparr>win_fullscreen := f\<rparr>"

subsection \<open>The host state\<close>

text \<open>
  Modelled from the spec: \<open>HostConfig\<close> is declared in host.h, which is not part of the
  sources at hand. The spec lists its fields as the flags paused, single-step-pending,
  fullscreen and sync-mode; host.c names them \<open>paused\<close>, \<open>step\<close>, \<open>fullscreen\<close>
  and \<open>no_sync\<close>.
\<close>

record HostConfig =
  no_sync :: bool
  paused :: bool
  step :: bool
  fullscreen :: bool

text \<open>Of \<open>SDL_AudioSpec\<close>, host.c reads only \<open>size\<close>, the device buffer size in bytes.\<close>

record SDL_AudioSpec =
  spec_size :: u32

text \<open>
  \<^verbatim>\<open>typedef struct { SDL_AudioDeviceID dev; SDL_AudioSpec spec; u8* buffer; Bool ready; } HostAudio;\<close>
  The staging buffer holds \<open>spec.size\<close> bytes and is only ever accessed as an array of
  \<open>HostAudioSample\<close>, so it is a list of 16-bit samples: a buffer of \<open>spec.size\<close> bytes
  has \<open>spec.size div 2\<close> sample slots.
\<close>

record HostAudio =
  dev :: audio_device
  spec :: SDL_AudioSpec
  buffer :: "HostAudioSample list"
  ready :: bool

text \<open>
  \<^verbatim>\<open>struct Host\<close>, without the OpenGL handles and the floating-point geometry.
  \<open>hook_ctx_e\<close> is the emulator \<open>host->hook_ctx.e\<close>; its type is a parameter, the
  emulator being outside host.c. \<open>texture\<close> is the content of the screen region of the
  OpenGL texture, one \<open>u32\<close> per RGBA pixel.
\<close>

record 'e Host =
  config :: HostConfig
  hook_ctx_e :: 'e
  window :: sdl_window
  audio :: HostAudio
  texture :: "u32 list"

subsection \<open>The emulator, as host.c uses it\<close>

text \<open>
  Modelled from the spec: \<open>AudioBuffer\<close> and \<open>audio_buffer_get_frames\<close> belong to the
  emulator (emulator.h), which is not part of the sources at hand. The spec describes the
  pending audio as a sequence of unsigned 8-bit interleaved stereo samples produced since
  the last delivery; a frame is one sample per channel, so the frames available are half
  the samples.
\<close>

record AudioBuffer =
  data :: "u8 list"

definition SOUND_OUTPUT_COUNT :: nat where
  "SOUND_OUTPUT_COUNT = 2"

definition audio_buffer_get_frames :: "AudioBuffer \<Rightarrow> nat" where
  "audio_buffer_get_frames ab = length (data ab) div SOUND_OUTPUT_COUNT"

text \<open>
  Modelled from the spec: the event flags an \<open>emulator_run_until\<close> call returns are the
  set \<open>{NEW_FRAME, AUDIO_BUFFER_FULL, TARGET_REACHED}\<close>; host.c tests each flag with
  \<open>event & FLAG\<close>, which is membership.
\<close>

datatype EmulatorEventFlag =
  EMULATOR_EVENT_NEW_FRAME | EMULATOR_EVENT_AUDIO_BUFFER_FULL | EMULATOR_EVENT_UNTIL_CYCLES

type_synonym EmulatorEvent = "EmulatorEventFlag set"

text \<open>
  The emulator functions host.c calls are parameters of the model: the emulator core is
  outside host.c. \<open>emulator_run_until\<close> returns the events and the new emulator state.
\<close>

record 'e Emulator =
  emulator_get_audio_buffer :: "'e \<Rightarrow> AudioBuffer"
  emulator_get_frame_buffer :: "'e \<Rightarrow> u32 list"
  emulator_get_cycles :: "'e \<Rightarrow> u32"
  emulator_run_until :: "'e \<Rightarrow> u32 \<Rightarrow> EmulatorEvent \<times> 'e"

subsection \<open>The audio constants of host.c\<close>

definition AUDIO_SPEC_CHANNELS :: nat where
  "AUDIO_SPEC_CHANNELS = 2"

text \<open>\<^verbatim>\<open>sizeof(HostAudioSample)\<close>\<close>

definition AUDIO_SPEC_SAMPLE_SIZE :: nat where
  "AUDIO_SPEC_SAMPLE_SIZE = 2"

definition AUDIO_FRAME_SIZE :: nat where
  "AUDIO_FRAME_SIZE = AUDIO_SPEC_SAMPLE_SIZE * AUDIO_SPEC_CHANNELS"

text \<open>
  \<^verbatim>\<open>#define AUDIO_CONVERT_SAMPLE_FROM_U8(X) ((X) << 8)\<close>: the \<open>u8\<close> operand is promoted
  to a 32-bit \<open>int\<close>, shifted, and the result stored into a \<open>HostAudioSample\<close>.
\<close>

definition AUDIO_CONVERT_SAMPLE_FROM_U8 :: "u8 \<Rightarrow> HostAudioSample" where
  "AUDIO_CONVERT_SAMPLE_FROM_U8 x = ucast (push_bit 8 (ucast x :: 32 word))"

text \<open>Both watermarks are computed in \<open>u32\<close>: \<open>spec.size\<close> is a \<open>Uint32\<close>.\<close>

definition AUDIO_TARGET_QUEUED_SIZE :: "'e Host \<Rightarrow> u32" where
  "AUDIO_TARGET_QUEUED_SIZE host = 2 * spec_size (spec (audio host))"

definition AUDIO_MAX_QUEUED_SIZE :: "'e Host \<Rightarrow> u32" where
  "AUDIO_MAX_QUEUED_SIZE host = 5 * spec_size (spec (audio host))"

subsection \<open>host\_reset\_audio, host\_set\_config, host\_get\_config\<close>

definition host_reset_audio :: "'e Host \<Rightarrow> 'e Host" where
  "host_reset_audio host =
     (let a1 = (audio host)\<lparr>ready := False\<rparr>;
          a2 = a1\<lparr>dev := SDL_ClearQueuedAudio (dev a1)\<rparr>;
          a3 = a2\<lparr>dev := SDL_PauseAudioDevice (dev a2) True\<rparr>
      in host\<lparr>audio := a3\<rparr>)"

definition host_set_config :: "'e Host \<Rightarrow> HostConfig \<Rightarrow> 'e Host" where
  "host_set_config host new_config =
     (let host1 =
            (if no_sync (config host) \<noteq> no_sync new_config
             then host_reset_audio
                    (host\<lparr>window := SDL_GL_SetSwapInterval (window host)
                                       (if no_sync new_config then 0 else 1)\<rparr>)
             else host);
          host2 =
            (if paused (config host1) \<noteq> paused new_config
             then host_reset_audio host1
             else host1);
          host3 =
            (if fullscreen (config host2) \<noteq> fullscreen new_config
             then host2\<lparr>window := SDL_SetWindowFullscreen (window host2) (fullscreen new_config)\<rparr>
             else host2)
      in host3\<lparr>config := new_config\<rparr>)"

definition host_get_config :: "'e Host \<Rightarrow> HostConfig" where
  "host_get_config host = config host"

subsection \<open>host\_render\_audio\<close>

text \<open>
  A failed \<open>assert\<close> aborts the program; a read or write outside its buffer is undefined
  behaviour in C. Both are error results here, so that their absence is a theorem.
\<close>

datatype host_error = AssertionFailed | OutOfBounds

definition read_u8 :: "u8 list \<Rightarrow> nat \<Rightarrow> host_error + u8" where
  "read_u8 xs i = (if i < length xs then Inr (xs ! i) else Inl OutOfBounds)"

definition write_sample ::
  "HostAudioSample list \<Rightarrow> nat \<Rightarrow> HostAudioSample \<Rightarrow> host_error + HostAudioSample list" where
  "write_sample buf i v = (if i < length buf then Inr (buf[i := v]) else Inl OutOfBounds)"

text \<open>
  The conversion loop
  \<^verbatim>\<open>for (size_t i = 0; i < frames; i++) { assert(dst + 2 <= dst_end); *dst++ = ...; *dst++ = ...; }\<close>
  \<open>src\<close> is an index into the source samples; \<open>dst\<close> and \<open>dst_end\<close> are indices into
  the staging buffer, in samples.
\<close>

function convert_loop ::
  "nat \<Rightarrow> nat \<Rightarrow> u8 list \<Rightarrow> nat \<Rightarrow> nat \<Rightarrow> nat \<Rightarrow> HostAudioSample list
     \<Rightarrow> host_error + HostAudioSample list" where
  "convert_loop i frames src_data src dst dst_end buf =
     (if i < frames then
        (if \<not> dst + 2 \<le> dst_end then Inl AssertionFailed
         else
           (case read_u8 src_data src of
              Inl err \<Rightarrow> Inl err
            | Inr x \<Rightarrow>
           (case write_sample buf dst (AUDIO_CONVERT_SAMPLE_FROM_U8 x) of
              Inl err \<Rightarrow> Inl err
            | Inr buf1 \<Rightarrow>
           (case read_u8 src_data (src + 1) of
              Inl err \<Rightarrow> Inl err
            | Inr y \<Rightarrow>
           (case write_sample buf1 (dst + 1) (AUDIO_CONVERT_SAMPLE_FROM_U8 y) of
              Inl err \<Rightarrow> Inl err
            | Inr buf2 \<Rightarrow>
                convert_loop (i + 1) frames src_data (src + 2) (dst + 2) dst_end buf2)))))
      else Inr buf)"
  by pat_completeness auto
termination
  by (relation "measure (\<lambda>(i, frames, src_data, src, dst, dst_end, buf). frames - i)") auto

declare convert_loop.simps [simp del]

text \<open>
  \<open>host_render_audio\<close>. The hooks \<open>audio_add_buffer\<close> and \<open>audio_buffer_ready\<close> are
  optional callbacks supplied by the embedding program; they are taken to observe only,
  not to change the host, and are left out.
\<close>

definition host_render_audio :: "'e Emulator \<Rightarrow> 'e Host \<Rightarrow> host_error + 'e Host" where
  "host_render_audio E host =
     (let e = hook_ctx_e host;
          a = audio host;
          audio_buffer = emulator_get_audio_buffer E e;
          src_frames = audio_buffer_get_frames audio_buffer;
          max_dst_frames = unat (spec_size (spec a)) div AUDIO_FRAME_SIZE;
          frames = min src_frames max_dst_frames;
          dst_end = frames * AUDIO_SPEC_CHANNELS
      in if \<not> dst_end * AUDIO_SPEC_SAMPLE_SIZE \<le> unat (spec_size (spec a))
         then Inl AssertionFailed
         else
           (case convert_loop 0 frames (data audio_buffer) 0 0 dst_end (buffer a) of
              Inl err \<Rightarrow> Inl err
            | Inr buf \<Rightarrow>
                (let a1 = a\<lparr>buffer := buf\<rparr>;
                     queued_size = SDL_GetQueuedAudioSize (dev a1);
                     buffer_size = (of_nat (dst_end * AUDIO_SPEC_SAMPLE_SIZE) :: u32);
                     enqueue = (queued_size < AUDIO_MAX_QUEUED_SIZE host);
                     a2 = (if enqueue
                           then a1\<lparr>dev := SDL_QueueAudio (dev a1) (buffer a1) buffer_size\<rparr>
                           else a1);
                     queued_size2 = (if enqueue then queued_size + buffer_size else queued_size);
                     a3 = (if \<not> ready a2 \<and> queued_size2 \<ge> AUDIO_TARGET_QUEUED_SIZE host
                           then a2\<lparr>ready := True, dev := SDL_PauseAudioDevice (dev a2) False\<rparr>
                           else a2)
                 in Inr (host\<lparr>audio := a3\<rparr>))))"

subsection \<open>host\_upload\_video and host\_run\_ms\<close>

definition host_upload_video :: "'e Emulator \<Rightarrow> 'e Host \<Rightarrow> 'e Host" where
  "host_upload_video E host =
     host\<lparr>texture := emulator_get_frame_buffer E (hook_ctx_e host)\<rparr>"

text \<open>
  The first two statements of the running part of \<open>host_run_ms\<close>:
  \<^verbatim>\<open>u32 delta_cycles = (u32)(delta_ms * CPU_CYCLES_PER_SECOND / 1000);\<close>
  \<^verbatim>\<open>u32 until_cycles = emulator_get_cycles(e) + delta_cycles;\<close>
  The \<open>f64\<close> arithmetic and the conversion to \<open>u32\<close> are not modelled: the function
  \<open>ms_to_cycles\<close> from the type of \<open>delta_ms\<close> to \<open>u32\<close> is a parameter. The
  addition is a \<open>u32\<close> addition.
\<close>

definition until_cycles :: "'e Emulator \<Rightarrow> ('ms \<Rightarrow> u32) \<Rightarrow> 'e Host \<Rightarrow> 'ms \<Rightarrow> u32" where
  "until_cycles E ms_to_cycles host delta_ms =
     (let e = hook_ctx_e host;
          delta_cycles = ms_to_cycles delta_ms
      in emulator_get_cycles E e + delta_cycles)"

text \<open>
  The \<^verbatim>\<open>while (1)\<close> loop of \<open>host_run_ms\<close>. It ends only when the emulator
  reports \<open>EMULATOR_EVENT_UNTIL_CYCLES\<close>; \<open>None\<close> is the loop that never ends.
\<close>

partial_function (option) host_run_loop ::
  "'e Emulator \<Rightarrow> u32 \<Rightarrow> 'e Host \<Rightarrow> (host_error + 'e Host) option" where
  "host_run_loop E until host =
     (case emulator_run_until E (hook_ctx_e host) until of
        (event, e') \<Rightarrow>
          (let host1 = host\<lparr>hook_ctx_e := e'\<rparr>;
               host2 = (if EMULATOR_EVENT_NEW_FRAME \<in> event
                        then host_upload_video E host1 else host1)
           in case (if EMULATOR_EVENT_AUDIO_BUFFER_FULL \<in> event
                    then host_render_audio E host2 else Inr host2) of
                Inl err \<Rightarrow> Some (Inl err)
              | Inr host3 \<Rightarrow>
                  (if EMULATOR_EVENT_UNTIL_CYCLES \<in> event
                   then Some (Inr host3)
                   else host_run_loop E until host3)))"

definition host_run_ms ::
  "'e Emulator \<Rightarrow> ('ms \<Rightarrow> u32) \<Rightarrow> 'e Host \<Rightarrow> 'ms \<Rightarrow> (host_error + 'e Host) option" where
  "host_run_ms E ms_to_cycles host delta_ms =
     (if paused (config host) then Some (Inr host)
      else
        (case host_run_loop E (until_cycles E ms_to_cycles host delta_ms) host of
           None \<Rightarrow> None
         | Some (Inl err) \<Rightarrow> Some (Inl err)
         | Some (Inr host1) \<Rightarrow>
             (let config1 = host_get_config host1
              in if step config1
                 then Some (Inr (host_set_config host1 (config1\<lparr>paused := True, step := False\<rparr>)))
                 else Some (Inr host1))))"

text \<open>
  Modelled from the spec: \<open>CPU_CYCLES_PER_SECOND\<close> is defined in emulator.h, which is not
  part of the sources at hand; the spec's scenario gives 4194304.
\<close>

definition CPU_CYCLES_PER_SECOND :: nat where
  "CPU_CYCLES_PER_SECOND = 4194304"

text \<open>
  The conversion for a \<open>delta_ms\<close> that is a whole number of milliseconds. For such a
  value below 1024000 the \<open>f64\<close> expression is exact up to the final truncation: the
  product with \<open>2 ^ 22\<close> is exact, and the quotient by 1000 is either a whole number or
  at least 1/125 away from one, far more than one rounding error.
\<close>

definition whole_ms_to_cycles :: "nat \<Rightarrow> u32" where
  "whole_ms_to_cycles delta_ms = of_nat (delta_ms * CPU_CYCLES_PER_SECOND div 1000)"

subsection \<open>Sequences of deliveries\<close>

text \<open>
  Between two calls of \<open>host_render_audio\<close> the device plays some of its queue and the
  emulator fills its audio buffer again: the device consumes \<open>n\<close> bytes and the emulator
  moves to a state \<open>e\<close>.
\<close>

definition before_delivery :: "nat \<Rightarrow> 'e \<Rightarrow> 'e Host \<Rightarrow> 'e Host" where
  "before_delivery n e host =
     host\<lparr>hook_ctx_e := e, audio := (audio host)\<lparr>dev := device_consume n (dev (audio host))\<rparr>\<rparr>"

text \<open>
  A sequence of deliveries, each preceded by such a step; the result lists the host state
  right after each call of \<open>host_render_audio\<close>.
\<close>

fun run_deliveries :: "'e Emulator \<Rightarrow> 'e Host \<Rightarrow> (nat \<times> 'e) list \<Rightarrow> host_error + 'e Host list" where
  "run_deliveries E host [] = Inr []"
| "run_deliveries E host ((n, e) # rest) =
     (case host_render_audio E (before_delivery n e host) of
        Inl err \<Rightarrow> Inl err
      | Inr host' \<Rightarrow>
          (case run_deliveries E host' rest of
             Inl err \<Rightarrow> Inl err
           | Inr hosts \<Rightarrow> Inr (host' # hosts)))"

text \<open>The queued byte count of the device right after each delivery of a sequence.\<close>

definition queued_after_deliveries ::
  "'e Emulator \<Rightarrow> 'e Host \<Rightarrow> (nat \<times> 'e) list \<Rightarrow> host_error + nat list" where
  "queued_after_deliveries E host steps =
     (case run_deliveries E host steps of
        Inl err \<Rightarrow> Inl err
      | Inr hosts \<Rightarrow> Inr (map (\<lambda>h. dev_queued (dev (audio h))) hosts))"

subsection \<open>Notions used to state the properties\<close>

text \<open>\<open>host_init_audio\<close> allocates the staging buffer with \<open>calloc(1, spec.size)\<close>.\<close>

definition staging_buffer_ok :: "'e Host \<Rightarrow> bool" where
  "staging_buffer_ok host =
     (length (buffer (audio host)) = unat (spec_size (spec (audio host))) div AUDIO_SPEC_SAMPLE_SIZE)"

text \<open>The value of the local variable \<open>frames\<close> of \<open>host_render_audio\<close>.\<close>

definition render_frames :: "'e Emulator \<Rightarrow> 'e Host \<Rightarrow> nat" where
  "render_frames E host =
     min (audio_buffer_get_frames (emulator_get_audio_buffer E (hook_ctx_e host)))
         (unat (spec_size (spec (audio host))) div AUDIO_FRAME_SIZE)"

text \<open>The first \<open>frames\<close> source frames, each sample converted.\<close>

definition converted_chunk :: "'e Emulator \<Rightarrow> 'e Host \<Rightarrow> HostAudioSample list" where
  "converted_chunk E host =
     map AUDIO_CONVERT_SAMPLE_FROM_U8
       (take (2 * render_frames E host) (data (emulator_get_audio_buffer E (hook_ctx_e host))))"

definition converted_buffer :: "'e Emulator \<Rightarrow> 'e Host \<Rightarrow> HostAudioSample list" where
  "converted_buffer E host =
     converted_chunk E host @ drop (2 * render_frames E host) (buffer (audio host))"

subsection \<open>Concrete states used by the examples\<close>

text \<open>A device buffer of 4096 bytes, as in the spec's scenarios.\<close>

definition example_audio :: "nat \<Rightarrow> bool \<Rightarrow> bool \<Rightarrow> HostAudio" where
  "example_audio q p r =
     \<lparr>dev = \<lparr>dev_queued = q, dev_paused = p, dev_stream = []\<rparr>,
      spec = \<lparr>spec_size = 4096\<rparr>,
      buffer = replicate 2048 0,
      ready = r\<rparr>"

definition example_config :: "bool \<Rightarrow> bool \<Rightarrow> bool \<Rightarrow> bool \<Rightarrow> HostConfig" where
  "example_config ns p s f = \<lparr>no_sync = ns, paused = p, step = s, fullscreen = f\<rparr>"

definition example_host :: "HostConfig \<Rightarrow> 'e \<Rightarrow> HostAudio \<Rightarrow> 'e Host" where
  "example_host c e a =
     \<lparr>config = c, hook_ctx_e = e,
      window = \<lparr>win_swap_interval = 1, win_fullscreen = False\<rparr>,
      audio = a, texture = []\<rparr>"

text \<open>
  A small emulator for the examples: it keeps a cycle counter, an audio buffer and a frame
  buffer, and runs at most 70224 cycles (one video frame) per call, reporting a new frame
  and a full audio buffer when it stops short of the target.
\<close>

record test_emulator =
  te_cycles :: u32
  te_audio :: AudioBuffer
  te_frame :: "u32 list"

definition test_run_until :: "test_emulator \<Rightarrow> u32 \<Rightarrow> EmulatorEvent \<times> test_emulator" where
  "test_run_until e until =
     (if until \<le> te_cycles e then ({EMULATOR_EVENT_UNTIL_CYCLES}, e)
      else if 70224 < until - te_cycles e
      then ({EMULATOR_EVENT_NEW_FRAME, EMULATOR_EVENT_AUDIO_BUFFER_FULL},
            e\<lparr>te_cycles := te_cycles e + 70224\<rparr>)
      else ({EMULATOR_EVENT_UNTIL_CYCLES}, e\<lparr>te_cycles := until\<rparr>))"

definition test_emulator_ops :: "test_emulator Emulator" where
  "test_emulator_ops =
     \<lparr>emulator_get_audio_buffer = te_audio,
      emulator_get_frame_buffer = te_frame,
      emulator_get_cycles = te_cycles,
      emulator_run_until = test_run_until\<rparr>"

definition example_emulator :: "u32 \<Rightarrow> u8 list \<Rightarrow> test_emulator" where
  "example_emulator c samples = \<lparr>te_cycles = c, te_audio = \<lparr>data = samples\<rparr>, te_frame = []\<rparr>"

text \<open>
  A second small emulator, which always stops exactly at the target it is given (again
  after at most 70224 cycles per call).
\<close>

definition exact_run_until :: "test_emulator \<Rightarrow> u32 \<Rightarrow> EmulatorEvent \<times> test_emulator" where
  "exact_run_until e until =
     (if 70224 < until - te_cycles e
      then ({EMULATOR_EVENT_NEW_FRAME, EMULATOR_EVENT_AUDIO_BUFFER_FULL},
            e\<lparr>te_cycles := te_cycles e + 70224\<rparr>)
      else ({EMULATOR_EVENT_UNTIL_CYCLES}, e\<lparr>te_cycles := until\<rparr>))"

definition exact_emulator_ops :: "test_emulator Emulator" where
  "exact_emulator_ops =
     \<lparr>emulator_get_audio_buffer = te_audio,
      emulator_get_frame_buffer = te_frame,
      emulator_get_cycles = te_cycles,
      emulator_run_until = exact_run_until\<rparr>"

section \<open>Properties\<close>

subsection \<open>The conversion loop and the staging buffer\<close>

lemma convert_sample_shift: "AUDIO_CONVERT_SAMPLE_FROM_U8 x = push_bit 8 (ucast x)"
  unfolding AUDIO_CONVERT_SAMPLE_FROM_U8_def
  by (rule bit_word_eqI) (auto simp add: bit_simps)

lemma convert_sample_unat: "unat (AUDIO_CONVERT_SAMPLE_FROM_U8 x) = 256 * unat x"
proof -
  have "unat x < 2 ^ 8" using unsigned_less[of x, where 'a = nat] by simp
  then have "unat x * 256 < 65536" by simp
  then show ?thesis
    unfolding convert_sample_shift
    by (simp add: push_bit_eq_mult unat_word_ariths unsigned_ucast_eq take_bit_nat_eq_self)
qed

lemma convert_loop_result:
  "src = 2 * i \<Longrightarrow> dst = 2 * i \<Longrightarrow> dst_end = 2 * frames \<Longrightarrow> i \<le> frames
   \<Longrightarrow> 2 * frames \<le> length src_data \<Longrightarrow> 2 * frames \<le> length buf
   \<Longrightarrow> \<exists>buf'. convert_loop i frames src_data src dst dst_end buf = Inr buf'
          \<and> length buf' = length buf
          \<and> (\<forall>k < length buf. buf' ! k =
                (if 2 * i \<le> k \<and> k < 2 * frames
                 then AUDIO_CONVERT_SAMPLE_FROM_U8 (src_data ! k) else buf ! k))"
proof (induction i frames src_data src dst dst_end buf rule: convert_loop.induct)
  case (1 i frames src_data src dst dst_end buf)
  show ?case
  proof (cases "i < frames")
    case False
    with "1.prems" show ?thesis by (subst convert_loop.simps) auto
  next
    case True
    let ?x = "AUDIO_CONVERT_SAMPLE_FROM_U8 (src_data ! (2 * i))"
    let ?y = "AUDIO_CONVERT_SAMPLE_FROM_U8 (src_data ! (2 * i + 1))"
    let ?buf2 = "buf[2 * i := ?x, 2 * i + 1 := ?y]"
    have r1: "read_u8 src_data src = Inr (src_data ! (2 * i))"
      and r2: "read_u8 src_data (src + 1) = Inr (src_data ! (2 * i + 1))"
      and w1: "write_sample buf dst ?x = Inr (buf[2 * i := ?x])"
      and w2: "write_sample (buf[2 * i := ?x]) (dst + 1) ?y = Inr ?buf2"
      using True "1.prems" by (simp_all add: read_u8_def write_sample_def)
    have a: "\<not> \<not> dst + 2 \<le> dst_end"
      using True "1.prems" by simp
    have unfold: "convert_loop i frames src_data src dst dst_end buf
                = convert_loop (i + 1) frames src_data (src + 2) (dst + 2) dst_end ?buf2"
      using True "1.prems" r1 r2 w1 w2
      by (subst convert_loop.simps) simp
    have "\<exists>buf'. convert_loop (i + 1) frames src_data (src + 2) (dst + 2) dst_end ?buf2 = Inr buf'
            \<and> length buf' = length ?buf2
            \<and> (\<forall>k < length ?buf2. buf' ! k =
                (if 2 * (i + 1) \<le> k \<and> k < 2 * frames
                 then AUDIO_CONVERT_SAMPLE_FROM_U8 (src_data ! k) else ?buf2 ! k))"
      using True "1.prems" by (intro "1.IH"[OF True a r1 w1 r2 w2]) simp_all
    then obtain buf' where
      b: "convert_loop (i + 1) frames src_data (src + 2) (dst + 2) dst_end ?buf2 = Inr buf'"
         "length buf' = length buf"
         "\<forall>k < length buf. buf' ! k =
                (if 2 * (i + 1) \<le> k \<and> k < 2 * frames
                 then AUDIO_CONVERT_SAMPLE_FROM_U8 (src_data ! k) else ?buf2 ! k)"
      by auto
    have "\<forall>k < length buf. buf' ! k =
                (if 2 * i \<le> k \<and> k < 2 * frames
                 then AUDIO_CONVERT_SAMPLE_FROM_U8 (src_data ! k) else buf ! k)"
    proof (intro allI impI)
      fix k assume k: "k < length buf"
      have kb: "buf' ! k = (if 2 * (i + 1) \<le> k \<and> k < 2 * frames
                 then AUDIO_CONVERT_SAMPLE_FROM_U8 (src_data ! k) else ?buf2 ! k)"
        using b(3) k by blast
      show "buf' ! k = (if 2 * i \<le> k \<and> k < 2 * frames
                 then AUDIO_CONVERT_SAMPLE_FROM_U8 (src_data ! k) else buf ! k)"
      proof (cases "k = 2 * i \<or> k = 2 * i + 1")
        case True
        with \<open>i < frames\<close> k kb show ?thesis by (auto simp add: nth_list_update)
      next
        case False
        with \<open>i < frames\<close> k kb show ?thesis by (auto simp add: nth_list_update)
      qed
    qed
    with b unfold show ?thesis by simp
  qed
qed

lemma length_converted_chunk: "length (converted_chunk E host) = 2 * render_frames E host"
  by (simp add: converted_chunk_def render_frames_def audio_buffer_get_frames_def
        SOUND_OUTPUT_COUNT_def)

lemma render_frames_bounds:
  "2 * render_frames E host \<le> length (data (emulator_get_audio_buffer E (hook_ctx_e host)))"
  "4 * render_frames E host \<le> unat (spec_size (spec (audio host)))"
  "staging_buffer_ok host \<Longrightarrow> 2 * render_frames E host \<le> length (buffer (audio host))"
  by (simp_all add: render_frames_def audio_buffer_get_frames_def SOUND_OUTPUT_COUNT_def
        AUDIO_FRAME_SIZE_def AUDIO_SPEC_SAMPLE_SIZE_def AUDIO_SPEC_CHANNELS_def
        staging_buffer_ok_def)

lemma convert_loop_converted_buffer:
  assumes "staging_buffer_ok host"
  shows "convert_loop 0 (render_frames E host)
           (data (emulator_get_audio_buffer E (hook_ctx_e host))) 0 0
           (render_frames E host * AUDIO_SPEC_CHANNELS) (buffer (audio host))
         = Inr (converted_buffer E host)"
proof -
  let ?n = "render_frames E host"
  let ?src = "data (emulator_get_audio_buffer E (hook_ctx_e host))"
  let ?buf = "buffer (audio host)"
  from convert_loop_result[of 0 0 0 "?n * AUDIO_SPEC_CHANNELS" ?n ?src ?buf]
       render_frames_bounds(1)[of E host] render_frames_bounds(3)[OF assms, of E]
  obtain buf' where
    r: "convert_loop 0 ?n ?src 0 0 (?n * AUDIO_SPEC_CHANNELS) ?buf = Inr buf'"
    and l: "length buf' = length ?buf"
    and n: "\<forall>k < length ?buf. buf' ! k =
              (if k < 2 * ?n then AUDIO_CONVERT_SAMPLE_FROM_U8 (?src ! k) else ?buf ! k)"
    by (auto simp add: AUDIO_SPEC_CHANNELS_def)
  have "buf' = converted_buffer E host"
  proof (rule nth_equalityI)
    show "length buf' = length (converted_buffer E host)"
      using l render_frames_bounds(1)[of E host] render_frames_bounds(3)[OF assms, of E]
      by (simp add: converted_buffer_def converted_chunk_def)
  next
    fix k assume "k < length buf'"
    then show "buf' ! k = converted_buffer E host ! k"
      using l n render_frames_bounds(1)[of E host] render_frames_bounds(3)[OF assms, of E]
      by (auto simp add: converted_buffer_def converted_chunk_def nth_append)
  qed
  with r show ?thesis by simp
qed

lemma unat_buffer_size:
  "unat (of_nat (render_frames E host * AUDIO_SPEC_CHANNELS * AUDIO_SPEC_SAMPLE_SIZE) :: u32)
     = 4 * render_frames E host"
proof -
  have "4 * render_frames E host < 2 ^ 32"
    using render_frames_bounds(2)[of E host]
          unsigned_less[of "spec_size (spec (audio host))", where 'a = nat]
    by simp
  then have "unat (of_nat (4 * render_frames E host) :: u32) = 4 * render_frames E host"
    by (simp add: unat_of_nat del: of_nat_mult of_nat_numeral)
  moreover have "render_frames E host * AUDIO_SPEC_CHANNELS * AUDIO_SPEC_SAMPLE_SIZE
                 = 4 * render_frames E host"
    by (simp add: AUDIO_SPEC_CHANNELS_def AUDIO_SPEC_SAMPLE_SIZE_def)
  ultimately show ?thesis by (simp only:)
qed

lemma host_render_audio_unfold:
  assumes "staging_buffer_ok host"
  shows "host_render_audio E host =
     Inr (host\<lparr>audio :=
       (let a1 = (audio host)\<lparr>buffer := converted_buffer E host\<rparr>;
            enqueue = (SDL_GetQueuedAudioSize (dev a1) < AUDIO_MAX_QUEUED_SIZE host);
            a2 = (if enqueue
                  then a1\<lparr>dev := (dev a1)\<lparr>dev_queued := dev_queued (dev a1) + 4 * render_frames E host,
                                            dev_stream := dev_stream (dev a1) @ converted_chunk E host\<rparr>\<rparr>
                  else a1)
        in if \<not> ready a2 \<and> AUDIO_TARGET_QUEUED_SIZE host \<le> SDL_GetQueuedAudioSize (dev a2)
           then a2\<lparr>ready := True, dev := (dev a2)\<lparr>dev_paused := False\<rparr>\<rparr>
           else a2)\<rparr>)"
proof -
  define bs :: u32 where
    "bs = of_nat (render_frames E host * AUDIO_SPEC_CHANNELS * AUDIO_SPEC_SAMPLE_SIZE)"
  have ubs: "unat bs = 4 * render_frames E host"
    unfolding bs_def by (rule unat_buffer_size)
  have chunk: "take (2 * render_frames E host) (converted_buffer E host) = converted_chunk E host"
    by (simp add: converted_buffer_def length_converted_chunk)
  have q: "(word_of_nat n :: u32) + bs = word_of_nat (n + 4 * render_frames E host)" for n
  proof -
    have "bs = word_of_nat (unat bs)" by simp
    then have "bs = word_of_nat (4 * render_frames E host)" by (simp only: ubs)
    then show ?thesis by (simp only: of_nat_add)
  qed
  have a: "render_frames E host * AUDIO_SPEC_CHANNELS * AUDIO_SPEC_SAMPLE_SIZE
             \<le> unat (spec_size (spec (audio host)))"
    using render_frames_bounds(2)[of E host]
    by (simp add: AUDIO_SPEC_CHANNELS_def AUDIO_SPEC_SAMPLE_SIZE_def)
  show ?thesis
    unfolding host_render_audio_def Let_def render_frames_def[symmetric] bs_def[symmetric]
    using a
    by (simp add: convert_loop_converted_buffer[OF assms] SDL_QueueAudio_def
          SDL_PauseAudioDevice_def SDL_GetQueuedAudioSize_def ubs chunk q)
qed

lemma host_render_audio_fields:
  assumes "staging_buffer_ok host" and "host_render_audio E host = Inr host'"
  shows "buffer (audio host') = converted_buffer E host"
    and "spec (audio host') = spec (audio host)"
    and "config host' = config host"
    and "hook_ctx_e host' = hook_ctx_e host"
    and "staging_buffer_ok host'"
  using assms(2) render_frames_bounds(1)[of E host] render_frames_bounds(3)[OF assms(1), of E]
        assms(1)
  unfolding host_render_audio_unfold[OF assms(1)]
  by (auto simp add: Let_def staging_buffer_ok_def converted_buffer_def length_converted_chunk)

text \<open>
  C10. For an audio spec whose size is a positive multiple of \<open>AUDIO_FRAME_SIZE\<close>, a
  staging buffer of that size and any source buffer: the end pointer \<open>dst_end\<close> is at
  most \<open>spec.size\<close> bytes past the start of the staging buffer (the first assertion),
  the conversion loop finishes without a failed assertion and without a read or write
  outside a buffer, it leaves every sample at or after \<open>dst_end\<close> untouched, and
  \<open>host_render_audio\<close> as a whole returns normally.
\<close>

theorem host_render_audio_stays_in_buffer:
  assumes "staging_buffer_ok host"
    and "0 < unat (spec_size (spec (audio host)))"
    and "unat (spec_size (spec (audio host))) mod AUDIO_FRAME_SIZE = 0"
  shows "render_frames E host * AUDIO_SPEC_CHANNELS * AUDIO_SPEC_SAMPLE_SIZE
           \<le> unat (spec_size (spec (audio host)))
       \<and> (\<exists>buf'. convert_loop 0 (render_frames E host)
                    (data (emulator_get_audio_buffer E (hook_ctx_e host))) 0 0
                    (render_frames E host * AUDIO_SPEC_CHANNELS) (buffer (audio host)) = Inr buf'
                \<and> length buf' = length (buffer (audio host))
                \<and> drop (render_frames E host * AUDIO_SPEC_CHANNELS) buf'
                    = drop (render_frames E host * AUDIO_SPEC_CHANNELS) (buffer (audio host)))
       \<and> (\<exists>host'. host_render_audio E host = Inr host')"
proof -
  have "render_frames E host * AUDIO_SPEC_CHANNELS * AUDIO_SPEC_SAMPLE_SIZE
           \<le> unat (spec_size (spec (audio host)))"
    using render_frames_bounds(2)[of E host]
    by (simp add: AUDIO_SPEC_CHANNELS_def AUDIO_SPEC_SAMPLE_SIZE_def)
  moreover have "length (converted_buffer E host) = length (buffer (audio host))"
    using render_frames_bounds(3)[OF assms(1), of E]
    by (simp add: converted_buffer_def length_converted_chunk)
  moreover have "drop (render_frames E host * AUDIO_SPEC_CHANNELS) (converted_buffer E host)
                 = drop (render_frames E host * AUDIO_SPEC_CHANNELS) (buffer (audio host))"
    by (simp add: converted_buffer_def length_converted_chunk AUDIO_SPEC_CHANNELS_def
          mult.commute)
  ultimately show ?thesis
    using convert_loop_converted_buffer[OF assms(1), of E]
          host_render_audio_unfold[OF assms(1), of E]
    by simp
qed

theorem host_render_audio_stays_in_buffer_witness:
  "(\<exists>host'. host_render_audio test_emulator_ops
       (example_host (example_config False False False False)
          (example_emulator 0 (replicate 3000 128)) (example_audio 0 True False)) = Inr host')
   \<and> render_frames test_emulator_ops
       (example_host (example_config False False False False)
          (example_emulator 0 (replicate 3000 128)) (example_audio 0 True False)) = 1024"
proof -
  let ?h = "example_host (example_config False False False False)
              (example_emulator 0 (replicate 3000 128)) (example_audio 0 True False)"
  have ok: "staging_buffer_ok ?h"
    by (simp add: staging_buffer_ok_def example_host_def example_audio_def
          AUDIO_SPEC_SAMPLE_SIZE_def)
  have pos: "0 < unat (spec_size (spec (audio ?h)))"
    by (simp add: example_host_def example_audio_def)
  have mult: "unat (spec_size (spec (audio ?h))) mod AUDIO_FRAME_SIZE = 0"
    by (simp add: example_host_def example_audio_def AUDIO_FRAME_SIZE_def
          AUDIO_SPEC_SAMPLE_SIZE_def AUDIO_SPEC_CHANNELS_def)
  have "render_frames test_emulator_ops ?h = 1024"
    by (simp add: render_frames_def example_host_def example_audio_def example_emulator_def
          test_emulator_ops_def audio_buffer_get_frames_def SOUND_OUTPUT_COUNT_def
          AUDIO_FRAME_SIZE_def AUDIO_SPEC_SAMPLE_SIZE_def AUDIO_SPEC_CHANNELS_def)
  with host_render_audio_stays_in_buffer[OF ok pos mult, of test_emulator_ops]
  show ?thesis by blast
qed

text \<open>
  C9. \<open>host_render_audio\<close> converts exactly
  \<open>min (available source frames) (spec.size / AUDIO_FRAME_SIZE)\<close> frames: afterwards the
  first two samples per converted frame of the staging buffer are the corresponding
  source samples, each shifted left by 8 bits into 16 bits, and the rest of the staging
  buffer is as before. The converted sample has the value \<open>256 * x\<close>: nothing is lost or
  rescaled.
\<close>

theorem host_render_audio_converts_frames:
  assumes "staging_buffer_ok host"
  shows "\<exists>host'. host_render_audio E host = Inr host'
       \<and> take (2 * min (audio_buffer_get_frames (emulator_get_audio_buffer E (hook_ctx_e host)))
                        (unat (spec_size (spec (audio host))) div AUDIO_FRAME_SIZE))
              (buffer (audio host'))
           = map (\<lambda>x. push_bit 8 (ucast x))
               (take (2 * min (audio_buffer_get_frames (emulator_get_audio_buffer E (hook_ctx_e host)))
                             (unat (spec_size (spec (audio host))) div AUDIO_FRAME_SIZE))
                  (data (emulator_get_audio_buffer E (hook_ctx_e host))))
       \<and> drop (2 * min (audio_buffer_get_frames (emulator_get_audio_buffer E (hook_ctx_e host)))
                        (unat (spec_size (spec (audio host))) div AUDIO_FRAME_SIZE))
              (buffer (audio host'))
           = drop (2 * min (audio_buffer_get_frames (emulator_get_audio_buffer E (hook_ctx_e host)))
                           (unat (spec_size (spec (audio host))) div AUDIO_FRAME_SIZE))
               (buffer (audio host))
       \<and> (\<forall>x. unat (AUDIO_CONVERT_SAMPLE_FROM_U8 x) = 256 * unat x)"
proof -
  obtain host' where h: "host_render_audio E host = Inr host'"
    using host_render_audio_unfold[OF assms, of E] by simp
  have b: "buffer (audio host') = converted_buffer E host"
    using host_render_audio_fields(1)[OF assms h] .
  have c: "converted_chunk E host
           = map (\<lambda>x. push_bit 8 (ucast x))
               (take (2 * render_frames E host)
                  (data (emulator_get_audio_buffer E (hook_ctx_e host))))"
    by (simp add: converted_chunk_def convert_sample_shift)
  have "take (2 * render_frames E host) (buffer (audio host')) = converted_chunk E host"
    and "drop (2 * render_frames E host) (buffer (audio host'))
          = drop (2 * render_frames E host) (buffer (audio host))"
    by (simp_all add: b converted_buffer_def length_converted_chunk)
  with h convert_sample_unat c show ?thesis
    unfolding render_frames_def[symmetric] by (intro exI[of _ host']) simp
qed

theorem host_render_audio_converts_frames_witness:
  "\<exists>host'. host_render_audio test_emulator_ops
       (example_host (example_config False False False False)
          (example_emulator 0 [0, 1, 128, 255, 7]) (example_audio 0 True False)) = Inr host'
     \<and> take 4 (buffer (audio host')) = [0, 256, 32768, 65280]"
proof -
  let ?h = "example_host (example_config False False False False)
              (example_emulator 0 [0, 1, 128, 255, 7]) (example_audio 0 True False)"
  have ok: "staging_buffer_ok ?h"
    by (simp add: staging_buffer_ok_def example_host_def example_audio_def
          AUDIO_SPEC_SAMPLE_SIZE_def)
  have n: "min (audio_buffer_get_frames (emulator_get_audio_buffer test_emulator_ops (hook_ctx_e ?h)))
               (unat (spec_size (spec (audio ?h))) div AUDIO_FRAME_SIZE) = 2"
    by (simp add: example_host_def example_audio_def example_emulator_def
          test_emulator_ops_def audio_buffer_get_frames_def SOUND_OUTPUT_COUNT_def
          AUDIO_FRAME_SIZE_def AUDIO_SPEC_SAMPLE_SIZE_def AUDIO_SPEC_CHANNELS_def)
  have d: "data (emulator_get_audio_buffer test_emulator_ops (hook_ctx_e ?h)) = [0, 1, 128, 255, 7]"
    by (simp add: example_host_def example_emulator_def test_emulator_ops_def)
  show ?thesis
    using host_render_audio_converts_frames[OF ok, of test_emulator_ops]
    unfolding n d by (auto simp add: push_bit_eq_mult)
qed

subsection \<open>Resetting the audio pacer\<close>


lemma host_reset_audio_state:
  "dev_queued (dev (audio (host_reset_audio host))) = 0"
  "dev_paused (dev (audio (host_reset_audio host)))"
  "\<not> ready (audio (host_reset_audio host))"
  "spec (audio (host_reset_audio host)) = spec (audio host)"
  "buffer (audio (host_reset_audio host)) = buffer (audio host)"
  "config (host_reset_audio host) = config host"
  by (simp_all add: host_reset_audio_def SDL_ClearQueuedAudio_def SDL_PauseAudioDevice_def Let_def)

text \<open>
  C6. Whenever \<open>host_set_config\<close> is given a config whose \<open>paused\<close> flag or whose
  \<open>no_sync\<close> flag differs from the current one, the audio pacer is reset: afterwards the
  device queue holds 0 bytes (and the queried size is 0), the device is paused and
  \<open>ready\<close> is false. When neither flag differs, whatever happens to \<open>fullscreen\<close>, the
  audio state and the device are left exactly as they were: a fullscreen change alone
  resets nothing.
\<close>

theorem host_set_config_resets_audio:
  "(paused (config host) \<noteq> paused new_config \<or> no_sync (config host) \<noteq> no_sync new_config
      \<longrightarrow> dev_queued (dev (audio (host_set_config host new_config))) = 0
        \<and> SDL_GetQueuedAudioSize (dev (audio (host_set_config host new_config))) = 0
        \<and> dev_paused (dev (audio (host_set_config host new_config)))
        \<and> \<not> ready (audio (host_set_config host new_config)))
   \<and> (paused (config host) = paused new_config \<and> no_sync (config host) = no_sync new_config
      \<longrightarrow> audio (host_set_config host new_config) = audio host)"
  by (auto simp add: host_set_config_def host_reset_audio_def SDL_ClearQueuedAudio_def
        SDL_PauseAudioDevice_def SDL_GetQueuedAudioSize_def Let_def)

theorem host_set_config_resets_audio_witness:
  "dev_queued (dev (audio (host_set_config
       (example_host (example_config False False False False) () (example_audio 8192 False True))
       (example_config False True False False)))) = 0
   \<and> dev_paused (dev (audio (host_set_config
       (example_host (example_config False False False False) () (example_audio 8192 False True))
       (example_config False True False False))))
   \<and> \<not> ready (audio (host_set_config
       (example_host (example_config False False False False) () (example_audio 8192 False True))
       (example_config False True False False)))
   \<and> audio (host_set_config
       (example_host (example_config False False False False) () (example_audio 8192 False True))
       (example_config False False False True)) = example_audio 8192 False True"
  using host_set_config_resets_audio
          [of "example_host (example_config False False False False) () (example_audio 8192 False True)"
              "example_config False True False False"]
        host_set_config_resets_audio
          [of "example_host (example_config False False False False) () (example_audio 8192 False True)"
              "example_config False False False True"]
  by (simp add: example_host_def example_config_def)

subsection \<open>Backpressure and the watermarks\<close>

lemma unat_max_queued:
  "5 * unat (spec_size (spec (audio host))) < 2 ^ 32
   \<Longrightarrow> unat (AUDIO_MAX_QUEUED_SIZE host) = 5 * unat (spec_size (spec (audio host)))"
  by (simp add: AUDIO_MAX_QUEUED_SIZE_def unat_word_ariths)

lemma unat_target_queued:
  "2 * unat (spec_size (spec (audio host))) < 2 ^ 32
   \<Longrightarrow> unat (AUDIO_TARGET_QUEUED_SIZE host) = 2 * unat (spec_size (spec (audio host)))"
  by (simp add: AUDIO_TARGET_QUEUED_SIZE_def unat_word_ariths)

lemma host_render_audio_device:
  assumes "staging_buffer_ok host" and "host_render_audio E host = Inr host'"
  shows "dev_queued (dev (audio host')) =
           (if SDL_GetQueuedAudioSize (dev (audio host)) < AUDIO_MAX_QUEUED_SIZE host
            then dev_queued (dev (audio host)) + 4 * render_frames E host
            else dev_queued (dev (audio host)))"
    and "dev_stream (dev (audio host')) =
           (if SDL_GetQueuedAudioSize (dev (audio host)) < AUDIO_MAX_QUEUED_SIZE host
            then dev_stream (dev (audio host)) @ converted_chunk E host
            else dev_stream (dev (audio host)))"
    and "ready (audio host') =
           (ready (audio host)
            \<or> AUDIO_TARGET_QUEUED_SIZE host \<le> SDL_GetQueuedAudioSize (dev (audio host')))"
    and "dev_paused (dev (audio host')) =
           (dev_paused (dev (audio host))
            \<and> (ready (audio host)
               \<or> \<not> AUDIO_TARGET_QUEUED_SIZE host \<le> SDL_GetQueuedAudioSize (dev (audio host'))))"
proof -
  have eq: "host' = host\<lparr>audio :=
       (let a1 = (audio host)\<lparr>buffer := converted_buffer E host\<rparr>;
            enqueue = (SDL_GetQueuedAudioSize (dev a1) < AUDIO_MAX_QUEUED_SIZE host);
            a2 = (if enqueue
                  then a1\<lparr>dev := (dev a1)\<lparr>dev_queued := dev_queued (dev a1) + 4 * render_frames E host,
                                            dev_stream := dev_stream (dev a1) @ converted_chunk E host\<rparr>\<rparr>
                  else a1)
        in if \<not> ready a2 \<and> AUDIO_TARGET_QUEUED_SIZE host \<le> SDL_GetQueuedAudioSize (dev a2)
           then a2\<lparr>ready := True, dev := (dev a2)\<lparr>dev_paused := False\<rparr>\<rparr>
           else a2)\<rparr>"
    using assms(2) unfolding host_render_audio_unfold[OF assms(1)] by simp
  show "dev_queued (dev (audio host')) =
           (if SDL_GetQueuedAudioSize (dev (audio host)) < AUDIO_MAX_QUEUED_SIZE host
            then dev_queued (dev (audio host)) + 4 * render_frames E host
            else dev_queued (dev (audio host)))"
    unfolding eq by (simp add: Let_def SDL_GetQueuedAudioSize_def)
  show "dev_stream (dev (audio host')) =
           (if SDL_GetQueuedAudioSize (dev (audio host)) < AUDIO_MAX_QUEUED_SIZE host
            then dev_stream (dev (audio host)) @ converted_chunk E host
            else dev_stream (dev (audio host)))"
    unfolding eq by (simp add: Let_def SDL_GetQueuedAudioSize_def)
  show "ready (audio host') =
           (ready (audio host)
            \<or> AUDIO_TARGET_QUEUED_SIZE host \<le> SDL_GetQueuedAudioSize (dev (audio host')))"
    unfolding eq by (simp add: Let_def SDL_GetQueuedAudioSize_def)
  show "dev_paused (dev (audio host')) =
           (dev_paused (dev (audio host))
            \<and> (ready (audio host)
               \<or> \<not> AUDIO_TARGET_QUEUED_SIZE host \<le> SDL_GetQueuedAudioSize (dev (audio host'))))"
    unfolding eq by (simp add: Let_def SDL_GetQueuedAudioSize_def)
qed

lemmas example_defs =
  example_host_def example_audio_def example_config_def example_emulator_def
  test_emulator_ops_def

lemmas audio_defs =
  staging_buffer_ok_def render_frames_def converted_buffer_def converted_chunk_def
  audio_buffer_get_frames_def SOUND_OUTPUT_COUNT_def AUDIO_FRAME_SIZE_def
  AUDIO_SPEC_SAMPLE_SIZE_def AUDIO_SPEC_CHANNELS_def AUDIO_MAX_QUEUED_SIZE_def
  AUDIO_TARGET_QUEUED_SIZE_def before_delivery_def device_consume_def host_reset_audio_def
  SDL_ClearQueuedAudio_def SDL_PauseAudioDevice_def SDL_GetQueuedAudioSize_def

text \<open>
  C2. A call of \<open>host_render_audio\<close> returns normally. If the queued size it reads
  from the device is at least \<open>AUDIO_MAX_QUEUED_SIZE\<close> (\<open>5 * spec.size\<close>), nothing is
  appended: the device's queued byte count and the samples it holds are as before.
  Otherwise the whole converted chunk is appended and the queued byte count grows by
  exactly the chunk's size in bytes.
\<close>

theorem host_render_audio_backpressure:
  assumes "staging_buffer_ok host"
  shows "\<exists>host'. host_render_audio E host = Inr host'
       \<and> (AUDIO_MAX_QUEUED_SIZE host \<le> SDL_GetQueuedAudioSize (dev (audio host))
            \<longrightarrow> dev_queued (dev (audio host')) = dev_queued (dev (audio host))
              \<and> dev_stream (dev (audio host')) = dev_stream (dev (audio host)))
       \<and> (SDL_GetQueuedAudioSize (dev (audio host)) < AUDIO_MAX_QUEUED_SIZE host
            \<longrightarrow> dev_stream (dev (audio host'))
                  = dev_stream (dev (audio host)) @ converted_chunk E host
              \<and> dev_queued (dev (audio host'))
                  = dev_queued (dev (audio host))
                    + length (converted_chunk E host) * AUDIO_SPEC_SAMPLE_SIZE)"
proof -
  obtain host' where h: "host_render_audio E host = Inr host'"
    using host_render_audio_unfold[OF assms, of E] by simp
  show ?thesis
    using h host_render_audio_device(1,2)[OF assms h]
    by (intro exI[of _ host'])
       (auto simp add: length_converted_chunk AUDIO_SPEC_SAMPLE_SIZE_def)
qed

theorem host_render_audio_backpressure_witness:
  "(\<exists>host'. host_render_audio test_emulator_ops
        (example_host (example_config False False False False)
           (example_emulator 0 (replicate 2048 128)) (example_audio 20480 False True))
      = Inr host'
      \<and> dev_queued (dev (audio host')) = 20480 \<and> dev_stream (dev (audio host')) = [])
   \<and> (\<exists>host'. host_render_audio test_emulator_ops
        (example_host (example_config False False False False)
           (example_emulator 0 (replicate 2048 128)) (example_audio 16384 False True))
      = Inr host'
      \<and> dev_queued (dev (audio host')) = 20480
      \<and> dev_stream (dev (audio host')) = replicate 2048 32768)"
proof -
  let ?full = "example_host (example_config False False False False)
                 (example_emulator 0 (replicate 2048 128)) (example_audio 20480 False True)"
  let ?room = "example_host (example_config False False False False)
                 (example_emulator 0 (replicate 2048 128)) (example_audio 16384 False True)"
  have ok: "staging_buffer_ok ?full" "staging_buffer_ok ?room"
    by (simp_all add: example_defs staging_buffer_ok_def AUDIO_SPEC_SAMPLE_SIZE_def)
  have full: "AUDIO_MAX_QUEUED_SIZE ?full \<le> SDL_GetQueuedAudioSize (dev (audio ?full))"
    "dev_queued (dev (audio ?full)) = 20480" "dev_stream (dev (audio ?full)) = []"
    by (simp_all add: example_defs AUDIO_MAX_QUEUED_SIZE_def SDL_GetQueuedAudioSize_def)
  have room: "SDL_GetQueuedAudioSize (dev (audio ?room)) < AUDIO_MAX_QUEUED_SIZE ?room"
    "dev_queued (dev (audio ?room)) = 16384" "dev_stream (dev (audio ?room)) = []"
    "converted_chunk test_emulator_ops ?room = replicate 2048 32768"
    by (simp_all add: example_defs audio_defs AUDIO_CONVERT_SAMPLE_FROM_U8_def)
  from host_render_audio_backpressure[OF ok(1), of test_emulator_ops] full
  have a: "\<exists>host'. host_render_audio test_emulator_ops ?full = Inr host'
      \<and> dev_queued (dev (audio host')) = 20480 \<and> dev_stream (dev (audio host')) = []"
    by auto
  from host_render_audio_backpressure[OF ok(2), of test_emulator_ops] room
  have b: "\<exists>host'. host_render_audio test_emulator_ops ?room = Inr host'
      \<and> dev_queued (dev (audio host')) = 20480
      \<and> dev_stream (dev (audio host')) = replicate 2048 32768"
    by (auto simp add: AUDIO_SPEC_SAMPLE_SIZE_def)
  from a b show ?thesis by blast
qed

subsection \<open>Delivery sequences: the queue bound and the ready transition\<close>

lemma before_delivery_fields:
  "staging_buffer_ok (before_delivery n e host) = staging_buffer_ok host"
  "spec (audio (before_delivery n e host)) = spec (audio host)"
  "ready (audio (before_delivery n e host)) = ready (audio host)"
  "dev_paused (dev (audio (before_delivery n e host))) = dev_paused (dev (audio host))"
  "dev_queued (dev (audio (before_delivery n e host))) = dev_queued (dev (audio host)) - n"
  "AUDIO_TARGET_QUEUED_SIZE (before_delivery n e host) = AUDIO_TARGET_QUEUED_SIZE host"
  "AUDIO_MAX_QUEUED_SIZE (before_delivery n e host) = AUDIO_MAX_QUEUED_SIZE host"
  by (simp_all add: before_delivery_def staging_buffer_ok_def device_consume_def
        AUDIO_TARGET_QUEUED_SIZE_def AUDIO_MAX_QUEUED_SIZE_def)

lemma queued_bound_step:
  assumes ok: "staging_buffer_ok host"
    and nowrap: "6 * unat (spec_size (spec (audio host))) < 2 ^ 32"
    and q: "dev_queued (dev (audio host)) \<le> 6 * unat (spec_size (spec (audio host)))"
    and h: "host_render_audio E host = Inr host'"
  shows "dev_queued (dev (audio host')) \<le> 6 * unat (spec_size (spec (audio host)))"
proof (cases "SDL_GetQueuedAudioSize (dev (audio host)) < AUDIO_MAX_QUEUED_SIZE host")
  case False
  with host_render_audio_device(1)[OF ok h] q show ?thesis by simp
next
  case True
  have "unat (SDL_GetQueuedAudioSize (dev (audio host))) = dev_queued (dev (audio host))"
    using q nowrap by (simp add: SDL_GetQueuedAudioSize_def unat_of_nat)
  moreover have "unat (AUDIO_MAX_QUEUED_SIZE host) = 5 * unat (spec_size (spec (audio host)))"
    using nowrap by (intro unat_max_queued) simp
  ultimately have "dev_queued (dev (audio host)) < 5 * unat (spec_size (spec (audio host)))"
    using True by (simp add: word_less_nat_alt)
  with host_render_audio_device(1)[OF ok h] True render_frames_bounds(2)[of E host]
  show ?thesis by simp
qed

lemma run_deliveries_queued_bound:
  assumes "staging_buffer_ok host"
    and "6 * unat (spec_size (spec (audio host))) < 2 ^ 32"
    and "dev_queued (dev (audio host)) \<le> 6 * unat (spec_size (spec (audio host)))"
  shows "\<exists>hosts. run_deliveries E host steps = Inr hosts \<and> length hosts = length steps
           \<and> (\<forall>h \<in> set hosts. dev_queued (dev (audio h))
                   \<le> 6 * unat (spec_size (spec (audio host))))"
  using assms
proof (induction steps arbitrary: host)
  case Nil
  then show ?case by simp
next
  case (Cons step steps)
  obtain n e where step: "step = (n, e)" by (cases step)
  let ?h = "before_delivery n e host"
  have ok: "staging_buffer_ok ?h" using Cons.prems(1) by (simp add: before_delivery_fields)
  obtain host' where h: "host_render_audio E ?h = Inr host'"
    using host_render_audio_unfold[OF ok, of E] by simp
  have sp: "spec (audio host') = spec (audio host)"
    using host_render_audio_fields(2)[OF ok h] by (simp add: before_delivery_fields)
  have q': "dev_queued (dev (audio host')) \<le> 6 * unat (spec_size (spec (audio host)))"
    using queued_bound_step[OF ok _ _ h] Cons.prems(2,3) by (simp add: before_delivery_fields)
  have ok': "staging_buffer_ok host'" using host_render_audio_fields(5)[OF ok h] .
  from Cons.IH[OF ok', of ] sp q' Cons.prems(2)
  obtain hosts where "run_deliveries E host' steps = Inr hosts" "length hosts = length steps"
    "\<forall>h \<in> set hosts. dev_queued (dev (audio h)) \<le> 6 * unat (spec_size (spec (audio host)))"
    by auto
  with h q' show ?case by (simp add: step)
qed

lemma run_deliveries_succeeds:
  assumes "staging_buffer_ok host"
  shows "\<exists>hosts. run_deliveries E host steps = Inr hosts \<and> length hosts = length steps"
  using assms
proof (induction steps arbitrary: host)
  case Nil
  then show ?case by simp
next
  case (Cons step steps)
  obtain n e where step: "step = (n, e)" by (cases step)
  have ok: "staging_buffer_ok (before_delivery n e host)"
    using Cons.prems by (simp add: before_delivery_fields)
  obtain host' where h: "host_render_audio E (before_delivery n e host) = Inr host'"
    using host_render_audio_unfold[OF ok, of E] by simp
  from Cons.IH[OF host_render_audio_fields(5)[OF ok h]] h show ?case
    by (auto simp add: step)
qed

text \<open>
  C1, as amended. The check against \<open>AUDIO_MAX_QUEUED_SIZE\<close> is made before the chunk is
  appended, and a chunk is at most one device buffer long. So, as long as
  \<open>6 * spec.size\<close> fits in 32 bits and the queue starts at no more than
  \<open>AUDIO_MAX_QUEUED_SIZE + spec.size\<close> (it is empty after a reset), the queued byte
  count right after every delivery of any sequence is at most
  \<open>AUDIO_MAX_QUEUED_SIZE + spec.size\<close>, six device buffers; under the same condition
  \<open>AUDIO_MAX_QUEUED_SIZE\<close> is \<open>5 * spec.size\<close> without wrap-around.
\<close>

theorem queued_after_deliveries_bounded:
  assumes "staging_buffer_ok host"
    and "6 * unat (spec_size (spec (audio host))) < 2 ^ 32"
    and "dev_queued (dev (audio host))
           \<le> unat (AUDIO_MAX_QUEUED_SIZE host) + unat (spec_size (spec (audio host)))"
  shows "unat (AUDIO_MAX_QUEUED_SIZE host) = 5 * unat (spec_size (spec (audio host)))
       \<and> (\<exists>qs. queued_after_deliveries E host steps = Inr qs \<and> length qs = length steps
              \<and> (\<forall>q \<in> set qs.
                     q \<le> unat (AUDIO_MAX_QUEUED_SIZE host) + unat (spec_size (spec (audio host)))))"
proof -
  have m: "unat (AUDIO_MAX_QUEUED_SIZE host) = 5 * unat (spec_size (spec (audio host)))"
    using assms(2) by (intro unat_max_queued) simp
  from run_deliveries_queued_bound[OF assms(1,2), of E steps] assms(3)
  obtain hosts where "run_deliveries E host steps = Inr hosts" "length hosts = length steps"
    "\<forall>h \<in> set hosts. dev_queued (dev (audio h)) \<le> 6 * unat (spec_size (spec (audio host)))"
    unfolding m by auto
  then show ?thesis
    unfolding m by (simp add: queued_after_deliveries_def)
qed

theorem queued_after_deliveries_bounded_witness:
  "\<exists>qs. queued_after_deliveries test_emulator_ops
       (example_host (example_config False False False False)
          (example_emulator 0 []) (example_audio 0 True False))
       [(0, example_emulator 0 (replicate 2048 128)),
        (4096, example_emulator 0 (replicate 1536 128))] = Inr qs
     \<and> length qs = 2 \<and> (\<forall>q \<in> set qs. q \<le> 24576)"
proof -
  let ?h = "example_host (example_config False False False False)
              (example_emulator 0 []) (example_audio 0 True False) :: test_emulator Host"
  have ok: "staging_buffer_ok ?h"
    by (simp add: example_defs staging_buffer_ok_def AUDIO_SPEC_SAMPLE_SIZE_def)
  have s: "unat (spec_size (spec (audio ?h))) = 4096"
    and m: "unat (AUDIO_MAX_QUEUED_SIZE ?h) = 20480"
    and q: "dev_queued (dev (audio ?h)) = 0"
    by (simp_all add: example_defs AUDIO_MAX_QUEUED_SIZE_def)
  have nowrap: "6 * unat (spec_size (spec (audio ?h))) < 2 ^ 32"
    unfolding s by simp
  have q': "dev_queued (dev (audio ?h))
              \<le> unat (AUDIO_MAX_QUEUED_SIZE ?h) + unat (spec_size (spec (audio ?h)))"
    unfolding q by simp
  from queued_after_deliveries_bounded[OF ok nowrap q', of test_emulator_ops
         "[(0, example_emulator 0 (replicate 2048 128)),
           (4096, example_emulator 0 (replicate 1536 128))]"]
  show ?thesis unfolding s m by (simp add: numeral_2_eq_2)
qed

text \<open>
  C1 as stated fails. With a device buffer of 4096 bytes the maximum watermark is 20480.
  After a reset, four deliveries of 1024 frames (4096 bytes each) and one of 768 frames
  (3072 bytes) leave 19456 bytes queued, which is below the watermark, so the sixth
  delivery of 4096 bytes is appended as a whole: 23552 bytes are queued right after it.
\<close>

theorem queued_exceeds_max_watermark:
  "queued_after_deliveries test_emulator_ops
     (host_reset_audio
        (example_host (example_config False False False False)
           (example_emulator 0 []) (example_audio 0 True False)))
     [(0, example_emulator 0 (replicate 2048 128)),
      (0, example_emulator 0 (replicate 2048 128)),
      (0, example_emulator 0 (replicate 2048 128)),
      (0, example_emulator 0 (replicate 2048 128)),
      (0, example_emulator 0 (replicate 1536 128)),
      (0, example_emulator 0 (replicate 2048 128))]
   = Inr [4096, 8192, 12288, 16384, 19456, 23552]
   \<and> unat (AUDIO_MAX_QUEUED_SIZE
             (example_host (example_config False False False False)
                (example_emulator 0 []) (example_audio 0 True False))) = 20480
   \<and> (20480 :: nat) < 23552"
  by (simp add: queued_after_deliveries_def host_render_audio_unfold example_defs audio_defs
        Let_def)

lemma run_deliveries_ready:
  assumes "staging_buffer_ok host" and "run_deliveries E host steps = Inr hosts"
    and "i < length hosts"
  shows "ready (audio (hosts ! i)) =
           (ready (audio host)
            \<or> (\<exists>h \<in> set (take (Suc i) hosts).
                  AUDIO_TARGET_QUEUED_SIZE host \<le> SDL_GetQueuedAudioSize (dev (audio h))))
       \<and> dev_paused (dev (audio (hosts ! i))) =
           (dev_paused (dev (audio host))
            \<and> (ready (audio host)
               \<or> \<not> (\<exists>h \<in> set (take (Suc i) hosts).
                      AUDIO_TARGET_QUEUED_SIZE host \<le> SDL_GetQueuedAudioSize (dev (audio h)))))"
  using assms
proof (induction steps arbitrary: host hosts i)
  case Nil
  then show ?case by simp
next
  case (Cons step steps)
  obtain n e where step: "step = (n, e)" by (cases step)
  let ?h = "before_delivery n e host"
  have ok: "staging_buffer_ok ?h" using Cons.prems(1) by (simp add: before_delivery_fields)
  obtain host' where h: "host_render_audio E ?h = Inr host'"
    using host_render_audio_unfold[OF ok, of E] by simp
  obtain rest where rest: "run_deliveries E host' steps = Inr rest" and hosts: "hosts = host' # rest"
    using Cons.prems(2) h by (auto simp add: step split: sum.splits)
  have ok': "staging_buffer_ok host'" using host_render_audio_fields(5)[OF ok h] .
  have t: "AUDIO_TARGET_QUEUED_SIZE host' = AUDIO_TARGET_QUEUED_SIZE host"
    using host_render_audio_fields(2)[OF ok h]
    by (simp add: AUDIO_TARGET_QUEUED_SIZE_def before_delivery_fields)
  have r: "ready (audio host') =
             (ready (audio host)
              \<or> AUDIO_TARGET_QUEUED_SIZE host \<le> SDL_GetQueuedAudioSize (dev (audio host')))"
    using host_render_audio_device(3)[OF ok h] by (simp add: before_delivery_fields)
  have p: "dev_paused (dev (audio host')) =
             (dev_paused (dev (audio host))
              \<and> (ready (audio host)
                 \<or> \<not> AUDIO_TARGET_QUEUED_SIZE host \<le> SDL_GetQueuedAudioSize (dev (audio host'))))"
    using host_render_audio_device(4)[OF ok h] by (simp add: before_delivery_fields)
  show ?case
  proof (cases i)
    case 0
    with r p show ?thesis by (simp add: hosts)
  next
    case (Suc j)
    then have j: "j < length rest" using Cons.prems(3) by (simp add: hosts)
    from Cons.IH[OF ok' rest j] r p show ?thesis
      unfolding t by (auto simp add: hosts Suc)
  qed
qed

text \<open>
  C3. Take any host with a proper staging buffer, reset its audio, and run any sequence
  of deliveries. Right after the delivery number \<open>i\<close>, \<open>ready\<close> is set exactly when one
  of the deliveries up to and including \<open>i\<close> ended with a queued size of at least
  \<open>AUDIO_TARGET_QUEUED_SIZE\<close> (\<open>2 * spec.size\<close>), and the device is paused exactly
  when none did. So the step from Priming to Ready, which sets \<open>ready\<close> and unpauses the
  device, happens at the first such delivery and at no later one: once \<open>ready\<close> is set
  it stays set and the device stays unpaused, until \<open>host_reset_audio\<close> clears it.
\<close>

theorem ready_once_per_reset:
  assumes "staging_buffer_ok host"
  shows "\<exists>hosts. run_deliveries E (host_reset_audio host) steps = Inr hosts
       \<and> length hosts = length steps
       \<and> (\<forall>i < length hosts.
            ready (audio (hosts ! i)) =
              (\<exists>h \<in> set (take (Suc i) hosts).
                  AUDIO_TARGET_QUEUED_SIZE host \<le> SDL_GetQueuedAudioSize (dev (audio h)))
          \<and> dev_paused (dev (audio (hosts ! i))) =
              (\<not> (\<exists>h \<in> set (take (Suc i) hosts).
                  AUDIO_TARGET_QUEUED_SIZE host \<le> SDL_GetQueuedAudioSize (dev (audio h)))))"
proof -
  have ok: "staging_buffer_ok (host_reset_audio host)"
    using assms by (simp add: staging_buffer_ok_def host_reset_audio_state)
  have t: "AUDIO_TARGET_QUEUED_SIZE (host_reset_audio host) = AUDIO_TARGET_QUEUED_SIZE host"
    by (simp add: AUDIO_TARGET_QUEUED_SIZE_def host_reset_audio_state)
  obtain hosts where r: "run_deliveries E (host_reset_audio host) steps = Inr hosts"
    and l: "length hosts = length steps"
    using run_deliveries_succeeds[OF ok] by blast
  show ?thesis
    using r l run_deliveries_ready[OF ok r]
    unfolding t by (intro exI[of _ hosts]) (simp add: host_reset_audio_state)
qed

theorem ready_once_per_reset_witness:
  "\<exists>hosts. run_deliveries test_emulator_ops
       (host_reset_audio
          (example_host (example_config False False False False)
             (example_emulator 0 []) (example_audio 12288 False True)))
       [(0, example_emulator 0 (replicate 2048 128)),
        (0, example_emulator 0 (replicate 2048 128)),
        (0, example_emulator 0 (replicate 2048 128))] = Inr hosts
     \<and> length hosts = 3
     \<and> \<not> ready (audio (hosts ! 0)) \<and> dev_paused (dev (audio (hosts ! 0)))
     \<and> ready (audio (hosts ! 1)) \<and> \<not> dev_paused (dev (audio (hosts ! 1)))
     \<and> ready (audio (hosts ! 2)) \<and> \<not> dev_paused (dev (audio (hosts ! 2)))"
proof -
  let ?h = "example_host (example_config False False False False)
              (example_emulator 0 []) (example_audio 12288 False True) :: test_emulator Host"
  let ?steps = "[(0, example_emulator 0 (replicate 2048 128)),
                 (0, example_emulator 0 (replicate 2048 128)),
                 (0, example_emulator 0 (replicate 2048 128))]"
  have ok: "staging_buffer_ok ?h"
    by (simp add: example_defs staging_buffer_ok_def AUDIO_SPEC_SAMPLE_SIZE_def)
  have t: "AUDIO_TARGET_QUEUED_SIZE ?h = 8192"
    by (simp add: example_defs AUDIO_TARGET_QUEUED_SIZE_def)
  have q: "queued_after_deliveries test_emulator_ops (host_reset_audio ?h) ?steps
           = Inr [4096, 8192, 12288]"
    by (simp add: queued_after_deliveries_def host_render_audio_unfold example_defs audio_defs
          Let_def)
  from ready_once_per_reset[OF ok, of test_emulator_ops ?steps]
  obtain hosts where r: "run_deliveries test_emulator_ops (host_reset_audio ?h) ?steps = Inr hosts"
    and l: "length hosts = 3"
    and c: "\<forall>i < length hosts.
            ready (audio (hosts ! i)) =
              (\<exists>h \<in> set (take (Suc i) hosts).
                  AUDIO_TARGET_QUEUED_SIZE ?h \<le> SDL_GetQueuedAudioSize (dev (audio h)))
          \<and> dev_paused (dev (audio (hosts ! i))) =
              (\<not> (\<exists>h \<in> set (take (Suc i) hosts).
                  AUDIO_TARGET_QUEUED_SIZE ?h \<le> SDL_GetQueuedAudioSize (dev (audio h))))"
    by auto
  from l obtain h0 h1 h2 where hs: "hosts = [h0, h1, h2]"
    by (auto simp add: numeral_3_eq_3 length_Suc_conv)
  from q r have "dev_queued (dev (audio h0)) = 4096" "dev_queued (dev (audio h1)) = 8192"
    "dev_queued (dev (audio h2)) = 12288"
    by (simp_all add: queued_after_deliveries_def hs)
  then have "\<not> 8192 \<le> SDL_GetQueuedAudioSize (dev (audio h0))"
    "8192 \<le> SDL_GetQueuedAudioSize (dev (audio h1))"
    by (simp_all add: SDL_GetQueuedAudioSize_def)
  with c[rule_format, of 0] c[rule_format, of 1] c[rule_format, of 2] r l show ?thesis
    unfolding t hs by (intro exI[of _ "[h0, h1, h2]"]) simp
qed

subsection \<open>Running the emulator: host\_run\_ms\<close>

lemma host_render_audio_keeps:
  "host_render_audio E host = Inr host'
   \<Longrightarrow> hook_ctx_e host' = hook_ctx_e host \<and> config host' = config host"
  by (auto simp add: host_render_audio_def Let_def split: if_splits sum.splits)

lemma host_upload_video_keeps:
  "hook_ctx_e (host_upload_video E host) = hook_ctx_e host"
  "config (host_upload_video E host) = config host"
  by (simp_all add: host_upload_video_def)

lemma host_run_loop_post:
  assumes "host_run_loop E until host = Some r"
  shows "\<forall>host'. r = Inr host' \<longrightarrow>
           config host' = config host
           \<and> ((\<forall>e t. EMULATOR_EVENT_UNTIL_CYCLES \<in> fst (emulator_run_until E e t)
                     \<longrightarrow> t \<le> emulator_get_cycles E (snd (emulator_run_until E e t)))
              \<longrightarrow> until \<le> emulator_get_cycles E (hook_ctx_e host'))"
proof (rule host_run_loop.raw_induct[OF _ assms])
  fix loop :: "'a Emulator \<Rightarrow> u32 \<Rightarrow> 'a Host \<Rightarrow> (host_error + 'a Host) option"
  fix E until host r
  assume IH: "\<And>E until host r. loop E until host = Some r \<Longrightarrow>
          \<forall>host'. r = Inr host' \<longrightarrow>
           config host' = config host
           \<and> ((\<forall>e t. EMULATOR_EVENT_UNTIL_CYCLES \<in> fst (emulator_run_until E e t)
                     \<longrightarrow> t \<le> emulator_get_cycles E (snd (emulator_run_until E e t)))
              \<longrightarrow> until \<le> emulator_get_cycles E (hook_ctx_e host'))"
  assume unfolded: "(case emulator_run_until E (hook_ctx_e host) until of
        (event, e') \<Rightarrow>
          (let host1 = host\<lparr>hook_ctx_e := e'\<rparr>;
               host2 = (if EMULATOR_EVENT_NEW_FRAME \<in> event
                        then host_upload_video E host1 else host1)
           in case (if EMULATOR_EVENT_AUDIO_BUFFER_FULL \<in> event
                    then host_render_audio E host2 else Inr host2) of
                Inl err \<Rightarrow> Some (Inl err)
              | Inr host3 \<Rightarrow>
                  (if EMULATOR_EVENT_UNTIL_CYCLES \<in> event
                   then Some (Inr host3)
                   else loop E until host3))) = Some r"
  obtain event e' where ev: "emulator_run_until E (hook_ctx_e host) until = (event, e')"
    by (cases "emulator_run_until E (hook_ctx_e host) until")
  define host1 where "host1 = host\<lparr>hook_ctx_e := e'\<rparr>"
  define host2 where "host2 = (if EMULATOR_EVENT_NEW_FRAME \<in> event
                                then host_upload_video E host1 else host1)"
  have h2: "hook_ctx_e host2 = e'" "config host2 = config host"
    by (simp_all add: host2_def host1_def host_upload_video_keeps)
  show "\<forall>host'. r = Inr host' \<longrightarrow>
           config host' = config host
           \<and> ((\<forall>e t. EMULATOR_EVENT_UNTIL_CYCLES \<in> fst (emulator_run_until E e t)
                     \<longrightarrow> t \<le> emulator_get_cycles E (snd (emulator_run_until E e t)))
              \<longrightarrow> until \<le> emulator_get_cycles E (hook_ctx_e host'))"
  proof (intro allI impI)
    fix host' assume r: "r = Inr host'"
    have body: "(case (if EMULATOR_EVENT_AUDIO_BUFFER_FULL \<in> event
                       then host_render_audio E host2 else Inr host2) of
                   Inl err \<Rightarrow> Some (Inl err)
                 | Inr host3 \<Rightarrow>
                     (if EMULATOR_EVENT_UNTIL_CYCLES \<in> event then Some (Inr host3)
                      else loop E until host3)) = Some r"
      using unfolded unfolding ev Let_def host2_def host1_def by (simp only: prod.case)
    obtain host3 where
      h3: "(if EMULATOR_EVENT_AUDIO_BUFFER_FULL \<in> event
            then host_render_audio E host2 else Inr host2) = Inr host3"
      and rest: "(if EMULATOR_EVENT_UNTIL_CYCLES \<in> event then Some (Inr host3)
                  else loop E until host3) = Some r"
    proof (cases "if EMULATOR_EVENT_AUDIO_BUFFER_FULL \<in> event
                  then host_render_audio E host2 else Inr host2")
      case (Inl err)
      with body r show ?thesis by simp
    next
      case (Inr host3)
      with body that show ?thesis by simp
    qed
    have k3: "hook_ctx_e host3 = e'" "config host3 = config host"
      using h3 h2 host_render_audio_keeps[of E host2 host3] by (auto split: if_splits)
    show "config host' = config host
          \<and> ((\<forall>e t. EMULATOR_EVENT_UNTIL_CYCLES \<in> fst (emulator_run_until E e t)
                     \<longrightarrow> t \<le> emulator_get_cycles E (snd (emulator_run_until E e t)))
              \<longrightarrow> until \<le> emulator_get_cycles E (hook_ctx_e host'))"
    proof (cases "EMULATOR_EVENT_UNTIL_CYCLES \<in> event")
      case True
      with rest r have "host' = host3" by simp
      moreover have "(\<forall>e t. EMULATOR_EVENT_UNTIL_CYCLES \<in> fst (emulator_run_until E e t)
                     \<longrightarrow> t \<le> emulator_get_cycles E (snd (emulator_run_until E e t)))
                 \<longrightarrow> until \<le> emulator_get_cycles E e'"
      proof
        assume "\<forall>e t. EMULATOR_EVENT_UNTIL_CYCLES \<in> fst (emulator_run_until E e t)
                     \<longrightarrow> t \<le> emulator_get_cycles E (snd (emulator_run_until E e t))"
        from this[rule_format, of "hook_ctx_e host" until] True ev
        show "until \<le> emulator_get_cycles E e'" by simp
      qed
      ultimately show ?thesis using k3 by simp
    next
      case False
      with rest have "loop E until host3 = Some r" by simp
      from IH[OF this] r k3 show ?thesis by simp
    qed
  qed
qed

lemma config_host_set_config: "config (host_set_config host new_config) = new_config"
  by (simp add: host_set_config_def Let_def)

lemma hook_ctx_e_host_set_config: "hook_ctx_e (host_set_config host new_config) = hook_ctx_e host"
  by (simp add: host_set_config_def host_reset_audio_def Let_def)

lemma host_run_ms_post:
  assumes "\<not> paused (config host)" and "host_run_ms E f host delta_ms = Some (Inr host')"
  shows "config host' = (if step (config host)
                         then (config host)\<lparr>paused := True, step := False\<rparr>
                         else config host)"
    and "(\<forall>e t. EMULATOR_EVENT_UNTIL_CYCLES \<in> fst (emulator_run_until E e t)
               \<longrightarrow> t \<le> emulator_get_cycles E (snd (emulator_run_until E e t)))
         \<Longrightarrow> until_cycles E f host delta_ms \<le> emulator_get_cycles E (hook_ctx_e host')"
proof -
  from assms obtain host1 where
    loop: "host_run_loop E (until_cycles E f host delta_ms) host = Some (Inr host1)"
    and res: "host' = (if step (config host1)
                       then host_set_config host1 ((config host1)\<lparr>paused := True, step := False\<rparr>)
                       else host1)"
    by (auto simp add: host_run_ms_def host_get_config_def Let_def
          split: option.splits sum.splits if_splits)
  from host_run_loop_post[OF loop]
  have c: "config host1 = config host"
    and u: "(\<forall>e t. EMULATOR_EVENT_UNTIL_CYCLES \<in> fst (emulator_run_until E e t)
               \<longrightarrow> t \<le> emulator_get_cycles E (snd (emulator_run_until E e t)))
            \<Longrightarrow> until_cycles E f host delta_ms \<le> emulator_get_cycles E (hook_ctx_e host1)"
    by simp_all
  show "config host' = (if step (config host)
                         then (config host)\<lparr>paused := True, step := False\<rparr>
                         else config host)"
    using res c by (simp add: config_host_set_config)
  show "until_cycles E f host delta_ms \<le> emulator_get_cycles E (hook_ctx_e host')"
    if "\<forall>e t. EMULATOR_EVENT_UNTIL_CYCLES \<in> fst (emulator_run_until E e t)
               \<longrightarrow> t \<le> emulator_get_cycles E (snd (emulator_run_until E e t))"
    using u[OF that] res by (simp add: hook_ctx_e_host_set_config)
qed

lemma host_run_loop_exact:
  assumes "host_run_loop E until host = Some r"
  shows "\<forall>host'. r = Inr host' \<longrightarrow>
           config host' = config host
           \<and> ((\<forall>e t. EMULATOR_EVENT_UNTIL_CYCLES \<in> fst (emulator_run_until E e t)
                     \<longrightarrow> emulator_get_cycles E (snd (emulator_run_until E e t)) = t)
              \<longrightarrow> emulator_get_cycles E (hook_ctx_e host') = until)"
proof (rule host_run_loop.raw_induct[OF _ assms])
  fix loop :: "'a Emulator \<Rightarrow> u32 \<Rightarrow> 'a Host \<Rightarrow> (host_error + 'a Host) option"
  fix E until host r
  assume IH: "\<And>E until host r. loop E until host = Some r \<Longrightarrow>
          \<forall>host'. r = Inr host' \<longrightarrow>
           config host' = config host
           \<and> ((\<forall>e t. EMULATOR_EVENT_UNTIL_CYCLES \<in> fst (emulator_run_until E e t)
                     \<longrightarrow> emulator_get_cycles E (snd (emulator_run_until E e t)) = t)
              \<longrightarrow> emulator_get_cycles E (hook_ctx_e host') = until)"
  assume unfolded: "(case emulator_run_until E (hook_ctx_e host) until of
        (event, e') \<Rightarrow>
          (let host1 = host\<lparr>hook_ctx_e := e'\<rparr>;
               host2 = (if EMULATOR_EVENT_NEW_FRAME \<in> event
                        then host_upload_video E host1 else host1)
           in case (if EMULATOR_EVENT_AUDIO_BUFFER_FULL \<in> event
                    then host_render_audio E host2 else Inr host2) of
                Inl err \<Rightarrow> Some (Inl err)
              | Inr host3 \<Rightarrow>
                  (if EMULATOR_EVENT_UNTIL_CYCLES \<in> event
                   then Some (Inr host3)
                   else loop E until host3))) = Some r"
  obtain event e' where ev: "emulator_run_until E (hook_ctx_e host) until = (event, e')"
    by (cases "emulator_run_until E (hook_ctx_e host) until")
  define host1 where "host1 = host\<lparr>hook_ctx_e := e'\<rparr>"
  define host2 where "host2 = (if EMULATOR_EVENT_NEW_FRAME \<in> event
                                then host_upload_video E host1 else host1)"
  have h2: "hook_ctx_e host2 = e'" "config host2 = config host"
    by (simp_all add: host2_def host1_def host_upload_video_keeps)
  show "\<forall>host'. r = Inr host' \<longrightarrow>
           config host' = config host
           \<and> ((\<forall>e t. EMULATOR_EVENT_UNTIL_CYCLES \<in> fst (emulator_run_until E e t)
                     \<longrightarrow> emulator_get_cycles E (snd (emulator_run_until E e t)) = t)
              \<longrightarrow> emulator_get_cycles E (hook_ctx_e host') = until)"
  proof (intro allI impI)
    fix host' assume r: "r = Inr host'"
    have body: "(case (if EMULATOR_EVENT_AUDIO_BUFFER_FULL \<in> event
                       then host_render_audio E host2 else Inr host2) of
                   Inl err \<Rightarrow> Some (Inl err)
                 | Inr host3 \<Rightarrow>
                     (if EMULATOR_EVENT_UNTIL_CYCLES \<in> event then Some (Inr host3)
                      else loop E until host3)) = Some r"
      using unfolded unfolding ev Let_def host2_def host1_def by (simp only: prod.case)
    obtain host3 where
      h3: "(if EMULATOR_EVENT_AUDIO_BUFFER_FULL \<in> event
            then host_render_audio E host2 else Inr host2) = Inr host3"
      and rest: "(if EMULATOR_EVENT_UNTIL_CYCLES \<in> event then Some (Inr host3)
                  else loop E until host3) = Some r"
    proof (cases "if EMULATOR_EVENT_AUDIO_BUFFER_FULL \<in> event
                  then host_render_audio E host2 else Inr host2")
      case (Inl err)
      with body r show ?thesis by simp
    next
      case (Inr host3)
      with body that show ?thesis by simp
    qed
    have k3: "hook_ctx_e host3 = e'" "config host3 = config host"
      using h3 h2 host_render_audio_keeps[of E host2 host3] by (auto split: if_splits)
    show "config host' = config host
          \<and> ((\<forall>e t. EMULATOR_EVENT_UNTIL_CYCLES \<in> fst (emulator_run_until E e t)
                     \<longrightarrow> emulator_get_cycles E (snd (emulator_run_until E e t)) = t)
              \<longrightarrow> emulator_get_cycles E (hook_ctx_e host') = until)"
    proof (cases "EMULATOR_EVENT_UNTIL_CYCLES \<in> event")
      case True
      with rest r have "host' = host3" by simp
      moreover have "(\<forall>e t. EMULATOR_EVENT_UNTIL_CYCLES \<in> fst (emulator_run_until E e t)
                     \<longrightarrow> emulator_get_cycles E (snd (emulator_run_until E e t)) = t)
                 \<longrightarrow> emulator_get_cycles E e' = until"
      proof
        assume "\<forall>e t. EMULATOR_EVENT_UNTIL_CYCLES \<in> fst (emulator_run_until E e t)
                     \<longrightarrow> emulator_get_cycles E (snd (emulator_run_until E e t)) = t"
        from this[rule_format, of "hook_ctx_e host" until] True ev
        show "emulator_get_cycles E e' = until" by simp
      qed
      ultimately show ?thesis using k3 by simp
    next
      case False
      with rest have "loop E until host3 = Some r" by simp
      from IH[OF this] r k3 show ?thesis by simp
    qed
  qed
qed

lemma host_run_ms_exact:
  assumes "\<not> paused (config host)" and "host_run_ms E f host delta_ms = Some (Inr host')"
    and "\<forall>e t. EMULATOR_EVENT_UNTIL_CYCLES \<in> fst (emulator_run_until E e t)
               \<longrightarrow> emulator_get_cycles E (snd (emulator_run_until E e t)) = t"
  shows "emulator_get_cycles E (hook_ctx_e host') = until_cycles E f host delta_ms"
proof -
  from assms(1,2) obtain host1 where
    loop: "host_run_loop E (until_cycles E f host delta_ms) host = Some (Inr host1)"
    and res: "host' = (if step (config host1)
                       then host_set_config host1 ((config host1)\<lparr>paused := True, step := False\<rparr>)
                       else host1)"
    by (auto simp add: host_run_ms_def host_get_config_def Let_def
          split: option.splits sum.splits if_splits)
  from host_run_loop_exact[OF loop] assms(3)
  have "emulator_get_cycles E (hook_ctx_e host1) = until_cycles E f host delta_ms"
    by simp
  then show ?thesis using res by (simp add: hook_ctx_e_host_set_config)
qed

lemma exact_emulator_stops_at_target:
  "\<forall>e t. EMULATOR_EVENT_UNTIL_CYCLES \<in> fst (emulator_run_until exact_emulator_ops e t)
         \<longrightarrow> emulator_get_cycles exact_emulator_ops
               (snd (emulator_run_until exact_emulator_ops e t)) = t"
  by (simp add: exact_emulator_ops_def exact_run_until_def)

lemma exact_emulator_reports_target:
  "\<forall>e t. EMULATOR_EVENT_UNTIL_CYCLES \<in> fst (emulator_run_until exact_emulator_ops e t)
         \<longrightarrow> t \<le> emulator_get_cycles exact_emulator_ops
                   (snd (emulator_run_until exact_emulator_ops e t))"
  by (simp add: exact_emulator_ops_def exact_run_until_def)

lemma unat_until_cycles_no_wrap:
  assumes "unat (emulator_get_cycles E (hook_ctx_e host)) + unat (f delta_ms) < 2 ^ 32"
  shows "unat (until_cycles E f host delta_ms)
         = unat (emulator_get_cycles E (hook_ctx_e host)) + unat (f delta_ms)"
  using assms by (simp add: until_cycles_def Let_def unat_add_lem[THEN iffD1])

lemma exact_example_run:
  "\<exists>host'. host_run_ms exact_emulator_ops whole_ms_to_cycles
     (example_host (example_config False False False False)
        (example_emulator 1000 (replicate 2048 128)) (example_audio 0 True False)) 32
   = Some (Inr host')"
  apply (simp add: host_run_ms_def until_cycles_def whole_ms_to_cycles_def
      CPU_CYCLES_PER_SECOND_def)
  apply (subst host_run_loop.simps)
  apply (simp add: example_defs exact_emulator_ops_def exact_run_until_def host_upload_video_def
       host_render_audio_unfold audio_defs Let_def)
  apply (subst host_run_loop.simps)
  apply (simp add: example_defs exact_emulator_ops_def exact_run_until_def host_upload_video_def
       host_render_audio_unfold audio_defs Let_def host_get_config_def
       host_set_config_def)
  done

lemma example_run:
  "\<exists>host'. host_run_ms test_emulator_ops whole_ms_to_cycles
     (example_host (example_config False False True False)
        (example_emulator 0 (replicate 2048 128)) (example_audio 0 True False)) 32
   = Some (Inr host') \<and> te_cycles (hook_ctx_e host') = 134217"
  apply (simp add: host_run_ms_def until_cycles_def whole_ms_to_cycles_def
      CPU_CYCLES_PER_SECOND_def)
  apply (subst host_run_loop.simps)
  apply (simp add: example_defs test_run_until_def host_upload_video_def
       host_render_audio_unfold audio_defs Let_def)
  apply (subst host_run_loop.simps)
  apply (simp add: example_defs test_run_until_def host_upload_video_def
       host_render_audio_unfold audio_defs Let_def host_get_config_def
       host_set_config_def)
  done

lemma test_emulator_reports_target:
  "\<forall>e t. EMULATOR_EVENT_UNTIL_CYCLES \<in> fst (emulator_run_until test_emulator_ops e t)
         \<longrightarrow> t \<le> emulator_get_cycles test_emulator_ops
                   (snd (emulator_run_until test_emulator_ops e t))"
  by (simp add: test_emulator_ops_def test_run_until_def)

lemma host_run_ms_loop:
  assumes "\<not> paused (config host)" and "host_run_ms E f host delta_ms = Some (Inr host')"
  shows "\<exists>host1. host_run_loop E (until_cycles E f host delta_ms) host = Some (Inr host1)
           \<and> hook_ctx_e host' = hook_ctx_e host1"
proof -
  from assms obtain host1 where
    loop: "host_run_loop E (until_cycles E f host delta_ms) host = Some (Inr host1)"
    and res: "host' = (if step (config host1)
                       then host_set_config host1 ((config host1)\<lparr>paused := True, step := False\<rparr>)
                       else host1)"
    by (auto simp add: host_run_ms_def host_get_config_def Let_def
          split: option.splits sum.splits if_splits)
  from res have "hook_ctx_e host' = hook_ctx_e host1"
    by (simp add: hook_ctx_e_host_set_config)
  with loop show ?thesis by blast
qed

text \<open>
  C7, as amended. \<open>host_run_ms\<close> starts with \<^verbatim>\<open>if (host->config.paused) return;\<close>:
  entered paused, it returns at once, runs nothing and leaves the host, and with it a
  pending step request, exactly as it was. Entered not paused with \<open>config.step\<close> set,
  if it returns, then exactly one scheduling quantum has been executed for the armed
  step: the emulator loop has run to its end for the target of this tick, and the emulator
  is left in the state the loop reached (its cycle count has reached \<open>until_cycles\<close>,
  given that the emulator reports \<open>EMULATOR_EVENT_UNTIL_CYCLES\<close> only then); on return
  \<open>config.paused\<close> is true and \<open>config.step\<close> is false; and every further tick
  returns at once with the host unchanged, so no second quantum follows.
\<close>

theorem host_run_ms_one_quantum_per_step:
  "(paused (config host) \<longrightarrow> host_run_ms E f host delta_ms = Some (Inr host))
   \<and> (\<not> paused (config host) \<and> step (config host)
        \<and> host_run_ms E f host delta_ms = Some (Inr host')
      \<longrightarrow> paused (config host') \<and> \<not> step (config host')
        \<and> (\<exists>host1. host_run_loop E (until_cycles E f host delta_ms) host = Some (Inr host1)
                    \<and> hook_ctx_e host' = hook_ctx_e host1)
        \<and> ((\<forall>e t. EMULATOR_EVENT_UNTIL_CYCLES \<in> fst (emulator_run_until E e t)
                    \<longrightarrow> t \<le> emulator_get_cycles E (snd (emulator_run_until E e t)))
             \<longrightarrow> until_cycles E f host delta_ms \<le> emulator_get_cycles E (hook_ctx_e host'))
        \<and> (\<forall>next_ms. host_run_ms E f host' next_ms = Some (Inr host')))"
proof (intro conjI impI)
  assume "paused (config host)"
  then show "host_run_ms E f host delta_ms = Some (Inr host)"
    by (simp add: host_run_ms_def)
next
  assume a: "\<not> paused (config host) \<and> step (config host)
        \<and> host_run_ms E f host delta_ms = Some (Inr host')"
  with host_run_ms_post(1)[of host E f delta_ms host']
  show p: "paused (config host')" and "\<not> step (config host')" by simp_all
  from a host_run_ms_loop[of host E f delta_ms host']
  show "\<exists>host1. host_run_loop E (until_cycles E f host delta_ms) host = Some (Inr host1)
                    \<and> hook_ctx_e host' = hook_ctx_e host1"
    by blast
  from p show "\<forall>next_ms. host_run_ms E f host' next_ms = Some (Inr host')"
    by (simp add: host_run_ms_def)
next
  assume a: "\<not> paused (config host) \<and> step (config host)
        \<and> host_run_ms E f host delta_ms = Some (Inr host')"
    and c: "\<forall>e t. EMULATOR_EVENT_UNTIL_CYCLES \<in> fst (emulator_run_until E e t)
                    \<longrightarrow> t \<le> emulator_get_cycles E (snd (emulator_run_until E e t))"
  then show "until_cycles E f host delta_ms \<le> emulator_get_cycles E (hook_ctx_e host')"
    using host_run_ms_post(2)[of host E f delta_ms host'] by blast
qed

theorem host_run_ms_one_quantum_per_step_witness:
  "(\<exists>host'. host_run_ms test_emulator_ops whole_ms_to_cycles
       (example_host (example_config False False True False)
          (example_emulator 0 (replicate 2048 128)) (example_audio 0 True False)) 32
      = Some (Inr host') \<and> paused (config host') \<and> \<not> step (config host')
      \<and> until_cycles test_emulator_ops whole_ms_to_cycles
           (example_host (example_config False False True False)
              (example_emulator 0 (replicate 2048 128)) (example_audio 0 True False)) 32
         \<le> emulator_get_cycles test_emulator_ops (hook_ctx_e host')
      \<and> host_run_ms test_emulator_ops whole_ms_to_cycles host' 16 = Some (Inr host'))
   \<and> host_run_ms test_emulator_ops whole_ms_to_cycles
       (example_host (example_config False True False False)
          (example_emulator 0 []) (example_audio 0 True False)) 16
      = Some (Inr (example_host (example_config False True False False)
          (example_emulator 0 []) (example_audio 0 True False)))"
proof -
  let ?armed = "example_host (example_config False False True False)
                  (example_emulator 0 (replicate 2048 128)) (example_audio 0 True False)"
  let ?paused = "example_host (example_config False True False False)
                  (example_emulator 0 []) (example_audio 0 True False)"
  from example_run obtain host' where
    r: "host_run_ms test_emulator_ops whole_ms_to_cycles ?armed 32 = Some (Inr host')"
    by blast
  have a: "\<not> paused (config ?armed)" "step (config ?armed)"
    by (simp_all add: example_host_def example_config_def)
  have p: "paused (config ?paused)"
    by (simp add: example_host_def example_config_def)
  from host_run_ms_one_quantum_per_step
         [of ?armed test_emulator_ops whole_ms_to_cycles 32 host'] a r
       test_emulator_reports_target
  have "paused (config host') \<and> \<not> step (config host')
      \<and> until_cycles test_emulator_ops whole_ms_to_cycles ?armed 32
         \<le> emulator_get_cycles test_emulator_ops (hook_ctx_e host')
      \<and> host_run_ms test_emulator_ops whole_ms_to_cycles host' 16 = Some (Inr host')"
    by blast
  moreover
  from host_run_ms_one_quantum_per_step
         [of ?paused test_emulator_ops whole_ms_to_cycles 16] p
  have "host_run_ms test_emulator_ops whole_ms_to_cycles ?paused 16 = Some (Inr ?paused)"
    by blast
  ultimately show ?thesis using r by blast
qed

text \<open>
  C7 as stated fails when the host is paused while the step request is pending (the keys
  N and then SPACE within one poll leave \<open>step = 1, paused = 1\<close>, and
  \<open>host_set_config\<close> accepts any config): the call returns, and the request is still
  set.
\<close>

theorem host_run_ms_paused_keeps_step:
  "host_run_ms test_emulator_ops whole_ms_to_cycles
     (example_host (example_config False True True False)
        (example_emulator 0 []) (example_audio 0 True False)) 16
   = Some (Inr (example_host (example_config False True True False)
        (example_emulator 0 []) (example_audio 0 True False)))
   \<and> step (config (example_host (example_config False True True False)
        (example_emulator 0 []) (example_audio 0 True False)))"
  by (simp add: host_run_ms_def example_host_def example_config_def)

lemma until_cycles_no_wrap:
  assumes "unat (emulator_get_cycles E (hook_ctx_e host)) + unat (f delta_ms) < 2 ^ 32"
  shows "emulator_get_cycles E (hook_ctx_e host) \<le> until_cycles E f host delta_ms"
proof -
  have "unat (emulator_get_cycles E (hook_ctx_e host) + f delta_ms)
        = unat (emulator_get_cycles E (hook_ctx_e host)) + unat (f delta_ms)"
    using assms by (simp add: unat_add_lem[THEN iffD1])
  then show ?thesis
    by (simp add: until_cycles_def Let_def word_le_nat_alt)
qed

text \<open>
  C8, as amended. \<open>until_cycles\<close> is the sum of the current cycle count and
  \<open>delta_cycles\<close> in 32-bit arithmetic. Whenever that sum does not exceed
  \<open>2 ^ 32 - 1\<close>, the target is not below the current cycle count. From one tick to the
  next the target does not decrease, provided the emulator reports
  \<open>EMULATOR_EVENT_UNTIL_CYCLES\<close> only once its cycle count has reached the target it
  was given, the first tick ran (the host was not paused) and returned, and the sum of the
  second tick does not exceed \<open>2 ^ 32 - 1\<close>.
\<close>

theorem until_cycles_monotone:
  "(unat (emulator_get_cycles E (hook_ctx_e host)) + unat (f d1) < 2 ^ 32
      \<longrightarrow> emulator_get_cycles E (hook_ctx_e host) \<le> until_cycles E f host d1)
   \<and> ((\<forall>e t. EMULATOR_EVENT_UNTIL_CYCLES \<in> fst (emulator_run_until E e t)
               \<longrightarrow> t \<le> emulator_get_cycles E (snd (emulator_run_until E e t)))
       \<and> \<not> paused (config host)
       \<and> host_run_ms E f host d1 = Some (Inr host1)
       \<and> unat (emulator_get_cycles E (hook_ctx_e host1)) + unat (f d2) < 2 ^ 32
      \<longrightarrow> until_cycles E f host d1 \<le> until_cycles E f host1 d2)"
proof (intro conjI impI)
  assume "unat (emulator_get_cycles E (hook_ctx_e host)) + unat (f d1) < 2 ^ 32"
  then show "emulator_get_cycles E (hook_ctx_e host) \<le> until_cycles E f host d1"
    by (rule until_cycles_no_wrap)
next
  assume a: "(\<forall>e t. EMULATOR_EVENT_UNTIL_CYCLES \<in> fst (emulator_run_until E e t)
               \<longrightarrow> t \<le> emulator_get_cycles E (snd (emulator_run_until E e t)))
       \<and> \<not> paused (config host)
       \<and> host_run_ms E f host d1 = Some (Inr host1)
       \<and> unat (emulator_get_cycles E (hook_ctx_e host1)) + unat (f d2) < 2 ^ 32"
  then have "until_cycles E f host d1 \<le> emulator_get_cycles E (hook_ctx_e host1)"
    using host_run_ms_post(2)[of host E f d1 host1] by blast
  moreover have "emulator_get_cycles E (hook_ctx_e host1) \<le> until_cycles E f host1 d2"
    using a until_cycles_no_wrap[of E host1 f d2] by blast
  ultimately show "until_cycles E f host d1 \<le> until_cycles E f host1 d2"
    by (rule order_trans)
qed

theorem until_cycles_monotone_witness:
  "\<exists>host1. host_run_ms test_emulator_ops whole_ms_to_cycles
       (example_host (example_config False False True False)
          (example_emulator 0 (replicate 2048 128)) (example_audio 0 True False)) 32
      = Some (Inr host1)
    \<and> until_cycles test_emulator_ops whole_ms_to_cycles
         (example_host (example_config False False True False)
            (example_emulator 0 (replicate 2048 128)) (example_audio 0 True False)) 32
       \<le> until_cycles test_emulator_ops whole_ms_to_cycles host1 16
    \<and> emulator_get_cycles test_emulator_ops (hook_ctx_e host1)
       \<le> until_cycles test_emulator_ops whole_ms_to_cycles host1 16"
proof -
  let ?h = "example_host (example_config False False True False)
              (example_emulator 0 (replicate 2048 128)) (example_audio 0 True False)"
  from example_run obtain host1 where
    r: "host_run_ms test_emulator_ops whole_ms_to_cycles ?h 32 = Some (Inr host1)"
    and c: "te_cycles (hook_ctx_e host1) = 134217"
    by blast
  have np: "\<not> paused (config ?h)"
    by (simp add: example_host_def example_config_def)
  have nw: "unat (emulator_get_cycles test_emulator_ops (hook_ctx_e host1))
              + unat (whole_ms_to_cycles 16) < 2 ^ 32"
    by (simp add: test_emulator_ops_def c whole_ms_to_cycles_def CPU_CYCLES_PER_SECOND_def)
  from until_cycles_monotone[of test_emulator_ops host1 whole_ms_to_cycles 16] nw
  have "emulator_get_cycles test_emulator_ops (hook_ctx_e host1)
          \<le> until_cycles test_emulator_ops whole_ms_to_cycles host1 16"
    by blast
  moreover
  from until_cycles_monotone[of test_emulator_ops ?h whole_ms_to_cycles 32 host1 16]
       test_emulator_reports_target np r nw
  have "until_cycles test_emulator_ops whole_ms_to_cycles ?h 32
          \<le> until_cycles test_emulator_ops whole_ms_to_cycles host1 16"
    by blast
  ultimately show ?thesis using r by blast
qed

text \<open>
  C8 as stated fails when the 32-bit sum wraps around: with the cycle counter at
  4294967280 (reached after about 17 minutes of emulation at 4194304 cycles per second) a
  tick of one millisecond, 4194 cycles, computes the target 4178, far below the current
  cycle count.
\<close>

theorem until_cycles_wraps_below_current:
  "until_cycles test_emulator_ops whole_ms_to_cycles
     (example_host (example_config False False False False)
        (example_emulator 4294967280 []) (example_audio 0 True False)) 1 = 4178
   \<and> emulator_get_cycles test_emulator_ops
       (hook_ctx_e (example_host (example_config False False False False)
          (example_emulator 4294967280 []) (example_audio 0 True False))) = 4294967280
   \<and> (4178 :: u32) < 4294967280"
  by (simp add: until_cycles_def whole_ms_to_cycles_def CPU_CYCLES_PER_SECOND_def
        example_host_def example_emulator_def test_emulator_ops_def)

text \<open>
  C4, as amended. For a whole number of milliseconds below 1024000 the conversion gives
  \<open>delta_cycles = floor (delta_ms * CPU_CYCLES_PER_SECOND / 1000)\<close> without
  truncation. If \<open>host_run_ms\<close> is entered not paused and returns, the emulator
  reports \<open>EMULATOR_EVENT_UNTIL_CYCLES\<close> only once its cycle count has reached the target
  it was given, and the cycle count before the call plus \<open>delta_cycles\<close> does not
  exceed \<open>2 ^ 32 - 1\<close>, then the cycle count on return is at least the count before plus
  \<open>delta_cycles\<close>. It is equal to that sum when the emulator stops exactly at the
  targets it reports as reached, whether or not it raised events on the way: host.c adds
  nothing to what the emulator does.
\<close>

theorem host_run_ms_advances:
  "(ms < 1024000 \<longrightarrow> unat (whole_ms_to_cycles ms) = ms * CPU_CYCLES_PER_SECOND div 1000)
   \<and> ((\<forall>e t. EMULATOR_EVENT_UNTIL_CYCLES \<in> fst (emulator_run_until E e t)
               \<longrightarrow> t \<le> emulator_get_cycles E (snd (emulator_run_until E e t)))
       \<and> \<not> paused (config host)
       \<and> host_run_ms E f host delta_ms = Some (Inr host')
       \<and> unat (emulator_get_cycles E (hook_ctx_e host)) + unat (f delta_ms) < 2 ^ 32
      \<longrightarrow> unat (emulator_get_cycles E (hook_ctx_e host)) + unat (f delta_ms)
            \<le> unat (emulator_get_cycles E (hook_ctx_e host')))
   \<and> ((\<forall>e t. EMULATOR_EVENT_UNTIL_CYCLES \<in> fst (emulator_run_until E e t)
               \<longrightarrow> emulator_get_cycles E (snd (emulator_run_until E e t)) = t)
       \<and> \<not> paused (config host)
       \<and> host_run_ms E f host delta_ms = Some (Inr host')
       \<and> unat (emulator_get_cycles E (hook_ctx_e host)) + unat (f delta_ms) < 2 ^ 32
      \<longrightarrow> unat (emulator_get_cycles E (hook_ctx_e host'))
            = unat (emulator_get_cycles E (hook_ctx_e host)) + unat (f delta_ms))"
proof (intro conjI impI)
  assume "ms < 1024000"
  then have "ms * CPU_CYCLES_PER_SECOND div 1000 < 2 ^ 32"
    by (simp add: CPU_CYCLES_PER_SECOND_def)
  then show "unat (whole_ms_to_cycles ms) = ms * CPU_CYCLES_PER_SECOND div 1000"
    by (simp add: whole_ms_to_cycles_def unat_of_nat)
next
  assume a: "(\<forall>e t. EMULATOR_EVENT_UNTIL_CYCLES \<in> fst (emulator_run_until E e t)
               \<longrightarrow> t \<le> emulator_get_cycles E (snd (emulator_run_until E e t)))
       \<and> \<not> paused (config host)
       \<and> host_run_ms E f host delta_ms = Some (Inr host')
       \<and> unat (emulator_get_cycles E (hook_ctx_e host)) + unat (f delta_ms) < 2 ^ 32"
  then have "until_cycles E f host delta_ms \<le> emulator_get_cycles E (hook_ctx_e host')"
    using host_run_ms_post(2)[of host E f delta_ms host'] by blast
  then have "unat (until_cycles E f host delta_ms) \<le> unat (emulator_get_cycles E (hook_ctx_e host'))"
    by (simp add: word_le_nat_alt)
  with a unat_until_cycles_no_wrap[of E host f delta_ms]
  show "unat (emulator_get_cycles E (hook_ctx_e host)) + unat (f delta_ms)
            \<le> unat (emulator_get_cycles E (hook_ctx_e host'))"
    by simp
next
  assume a: "(\<forall>e t. EMULATOR_EVENT_UNTIL_CYCLES \<in> fst (emulator_run_until E e t)
               \<longrightarrow> emulator_get_cycles E (snd (emulator_run_until E e t)) = t)
       \<and> \<not> paused (config host)
       \<and> host_run_ms E f host delta_ms = Some (Inr host')
       \<and> unat (emulator_get_cycles E (hook_ctx_e host)) + unat (f delta_ms) < 2 ^ 32"
  then have "emulator_get_cycles E (hook_ctx_e host') = until_cycles E f host delta_ms"
    using host_run_ms_exact[of host E f delta_ms host'] by blast
  with a unat_until_cycles_no_wrap[of E host f delta_ms]
  show "unat (emulator_get_cycles E (hook_ctx_e host'))
            = unat (emulator_get_cycles E (hook_ctx_e host)) + unat (f delta_ms)"
    by simp
qed

theorem host_run_ms_advances_witness:
  "unat (whole_ms_to_cycles 16) = 67108
   \<and> (\<exists>host'. host_run_ms exact_emulator_ops whole_ms_to_cycles
         (example_host (example_config False False False False)
            (example_emulator 1000 (replicate 2048 128)) (example_audio 0 True False)) 32
        = Some (Inr host')
      \<and> unat (emulator_get_cycles exact_emulator_ops (hook_ctx_e host')) = 1000 + 134217
      \<and> 1000 + 134217 \<le> unat (emulator_get_cycles exact_emulator_ops (hook_ctx_e host')))"
proof -
  let ?h = "example_host (example_config False False False False)
              (example_emulator 1000 (replicate 2048 128)) (example_audio 0 True False)"
  from exact_example_run obtain host' where
    r: "host_run_ms exact_emulator_ops whole_ms_to_cycles ?h 32 = Some (Inr host')"
    by blast
  have np: "\<not> paused (config ?h)"
    by (simp add: example_host_def example_config_def)
  have c: "unat (emulator_get_cycles exact_emulator_ops (hook_ctx_e ?h)) = 1000"
    and d: "unat (whole_ms_to_cycles 32) = 134217"
    by (simp_all add: example_host_def example_emulator_def exact_emulator_ops_def
          whole_ms_to_cycles_def CPU_CYCLES_PER_SECOND_def)
  have nw: "unat (emulator_get_cycles exact_emulator_ops (hook_ctx_e ?h))
              + unat (whole_ms_to_cycles 32) < 2 ^ 32"
    unfolding c d by simp
  have m: "(16::nat) < 1024000" by simp
  from host_run_ms_advances[of 16 exact_emulator_ops ?h whole_ms_to_cycles 32 host']
       exact_emulator_reports_target exact_emulator_stops_at_target np r nw m
  have "unat (whole_ms_to_cycles 16) = 16 * CPU_CYCLES_PER_SECOND div 1000"
    and "unat (emulator_get_cycles exact_emulator_ops (hook_ctx_e ?h)) + unat (whole_ms_to_cycles 32)
            \<le> unat (emulator_get_cycles exact_emulator_ops (hook_ctx_e host'))"
    and "unat (emulator_get_cycles exact_emulator_ops (hook_ctx_e host'))
            = unat (emulator_get_cycles exact_emulator_ops (hook_ctx_e ?h)) + unat (whole_ms_to_cycles 32)"
    by blast+
  then show ?thesis
    using r unfolding c d by (intro conjI exI[of _ host']) (simp_all add: CPU_CYCLES_PER_SECOND_def)
qed

text \<open>
  C4 as stated fails when the 32-bit target wraps around. With the cycle counter at
  4294967280 a tick of one millisecond has \<open>delta_cycles = 4194\<close>; the sum 4294971474
  is not a value the 32-bit counter can take. The target is computed as 4178, already
  below the current count, so the emulator of the examples reports the target reached at
  once and the call returns with the counter where it was.
\<close>

theorem host_run_ms_wrap_no_advance:
  "host_run_ms test_emulator_ops whole_ms_to_cycles
     (example_host (example_config False False False False)
        (example_emulator 4294967280 []) (example_audio 0 True False)) 1
   = Some (Inr (example_host (example_config False False False False)
        (example_emulator 4294967280 []) (example_audio 0 True False)))
   \<and> unat (emulator_get_cycles test_emulator_ops
        (hook_ctx_e (example_host (example_config False False False False)
           (example_emulator 4294967280 []) (example_audio 0 True False)))) = 4294967280
   \<and> unat (whole_ms_to_cycles 1) = 4194
   \<and> (4294967280 :: nat) < 4294967280 + 4194"
  apply (simp add: host_run_ms_def until_cycles_def whole_ms_to_cycles_def
      CPU_CYCLES_PER_SECOND_def)
  apply (subst host_run_loop.simps)
  apply (simp add: example_defs test_run_until_def host_get_config_def Let_def)
  done

end
